theory Spec2Isabelle
  imports Main
begin

section \<open>The JSON projection hook of schaufel (src/hooks/jsonexport.c)\<close>

text \<open>
  The hook receives a message holding JSON text, resolves a configured list of JSON
  Pointers (the needles) in it, filters, formats and stores the located values, and
  replaces the payload by one row of PostgreSQL's binary COPY format.

  Conventions of the embedding.
  \<^item> C strings are \<open>string\<close> (the bytes before the terminating NUL); byte buffers are
    \<open>string\<close> too, one \<open>char\<close> per byte.
  \<^item> \<open>uint16_t\<close>, \<open>uint32_t\<close> and \<open>uint64_t\<close> values are natural numbers, with the
    wrap-around of every C operation written out as \<open>mod 2 ^ 16\<close>, \<open>mod 2 ^ 32\<close> and
    \<open>mod 2 ^ 64\<close>. \<open>unsigned long\<close> has 64 bits (LP64).
  \<^item> A function whose C execution dereferences NULL, reads outside a buffer or frees a
    pointer that is not a live allocation returns \<open>None\<close>; a function that returns
    normally returns \<open>Some\<close> of its result and of the state it leaves.
  \<^item> \<open>malloc\<close> always succeeds (\<open>SCALLOC\<close> aborts the process otherwise); the
    out-of-memory branch of the timestamp formatter is outside the model.
  \<^item> A call of \<open>logger_log\<close> appends one diagnostic to the log the function returns.
\<close>

subsection \<open>Bytes in network byte order\<close>

definition htons :: "nat \<Rightarrow> string" where
  "htons v = [char_of (v div 256), char_of v]"

definition htobe32 :: "nat \<Rightarrow> string" where
  "htobe32 v = [char_of (v div 16777216), char_of (v div 65536), char_of (v div 256), char_of v]"

definition htobe64 :: "nat \<Rightarrow> string" where
  "htobe64 v =
     [char_of (v div 72057594037927936), char_of (v div 281474976710656),
      char_of (v div 1099511627776), char_of (v div 4294967296),
      char_of (v div 16777216), char_of (v div 65536), char_of (v div 256), char_of v]"

text \<open>Reading a big-endian byte sequence back as a number.\<close>

fun be_decode :: "nat \<Rightarrow> string \<Rightarrow> nat" where
  "be_decode acc [] = acc"
| "be_decode acc (c # cs) = be_decode (acc * 256 + of_char c) cs"

subsection \<open>The C library: \<open>strtoul\<close> and \<open>strtoull\<close> in base 10\<close>

definition isspace :: "char \<Rightarrow> bool" where
  "isspace c = (c = CHR '' '' \<or> c = CHR 0x09 \<or> c = CHR 0x0A \<or> c = CHR 0x0B
     \<or> c = CHR 0x0C \<or> c = CHR 0x0D)"

definition isdigit :: "char \<Rightarrow> bool" where
  "isdigit c = (48 \<le> (of_char c :: nat) \<and> (of_char c :: nat) \<le> 57)"

fun digits_value :: "nat \<Rightarrow> string \<Rightarrow> nat" where
  "digits_value acc [] = acc"
| "digits_value acc (c # cs) = digits_value (acc * 10 + (of_char c - 48)) cs"

text \<open>
  \<open>strtoull s\<close> skips white space, reads an optional sign and the longest run of decimal
  digits. It returns the value as a 64-bit unsigned number and whether it set \<open>errno\<close>
  (to \<open>ERANGE\<close>, on overflow). With no digit there is no conversion: the value is 0
  and \<open>errno\<close> is left alone (glibc). A minus sign negates modulo \<open>2 ^ 64\<close>.
\<close>

definition strtoull :: "string \<Rightarrow> nat \<times> bool" where
  "strtoull s =
     (let s1 = dropWhile isspace s;
          neg = (case s1 of [] \<Rightarrow> False | c # _ \<Rightarrow> c = CHR ''-'');
          s2 = (case s1 of [] \<Rightarrow> []
                | c # cs \<Rightarrow> if c = CHR ''-'' \<or> c = CHR ''+'' then cs else s1);
          ds = takeWhile isdigit s2;
          v = digits_value 0 ds
      in if ds = [] then (0, False)
         else if v \<ge> 2 ^ 64 then (2 ^ 64 - 1, True)
         else if neg then ((2 ^ 64 - v) mod 2 ^ 64, False)
         else (v, False))"

definition strtoul :: "string \<Rightarrow> nat \<times> bool" where
  "strtoul s = strtoull s"

text \<open>\<open>s[i]\<close> for \<open>i\<close> up to the length of the C string: the terminator is NUL.\<close>

definition cstr_at :: "string \<Rightarrow> nat \<Rightarrow> char" where
  "cstr_at s i = (if i < length s then s ! i else CHR 0x00)"

subsection \<open>The leap year table (\<open>_leapyear\<close>)\<close>

text \<open>
  \<open>leap_fill i n a\<close> is the loop from index \<open>i\<close> with \<open>n\<close> iterations to go and the
  accumulator \<open>a\<close>: it lists the values stored at \<open>l[i+1]\<close>, \<open>l[i+2]\<close>, ... The array is
  zeroed by \<open>SCALLOC\<close>, so \<open>l[0] = 0\<close>.
\<close>

fun leap_fill :: "nat \<Rightarrow> nat \<Rightarrow> nat \<Rightarrow> nat list" where
  "leap_fill i 0 a = []"
| "leap_fill i (Suc n) a =
     (let a' = (if (i mod 4 = 0 \<and> i mod 100 \<noteq> 0) \<or> i mod 400 = 0
                then (a + 1) mod 2 ^ 32 else a)
      in a' # leap_fill (Suc i) n a')"

definition leapyear :: "nat list" where
  "leapyear = 0 # leap_fill 0 2047 0"

subsection \<open>Diagnostics written by \<open>logger_log\<close>\<close>

datatype diag =
    Datestring_not_supported string
  | Error_in_date_conversion
  | Date_out_of_range string
  | Datestring_not_a_date string
  | Failed_jpointer_deref string
  | Failed_to_tokenize_json
  | Payload_without_null_terminator

subsection \<open>The timestamp formatter (\<open>_json_to_pqtimestamp\<close>), its arithmetic\<close>

record tm =
  year :: nat
  month :: nat
  day :: nat
  yday :: nat
  hour :: nat
  minute :: nat
  second :: nat
  micro :: nat

text \<open>Lines 310 to 326: the length and the punctuation.\<close>

definition ts_supported :: "string \<Rightarrow> bool" where
  "ts_supported ts =
     (\<not> (length ts < 20 \<or> length ts > 31) \<and>
      \<not> (cstr_at ts 4 \<noteq> CHR ''-'' \<or> cstr_at ts 7 \<noteq> CHR ''-'' \<or> cstr_at ts 10 \<noteq> CHR ''T''
         \<or> cstr_at ts 13 \<noteq> CHR '':'' \<or> cstr_at ts 16 \<noteq> CHR '':''
         \<or> \<not> (cstr_at ts 19 = CHR ''.'' \<or> cstr_at ts 19 = CHR ''Z'')
         \<or> cstr_at ts (length ts - 1) \<noteq> CHR ''Z''))"

text \<open>
  Lines 335 to 341: the fraction. The branch is taken only when \<open>ts[19]\<close> is the dot and
  \<open>ts[20]\<close> is not the final Z, so \<open>len - 1 - 20\<close> does not wrap. The six characters of
  \<open>micro\<close> start as zeros and receive at most six characters of the input.
\<close>

definition ts_micro :: "string \<Rightarrow> nat \<times> bool" where
  "ts_micro ts =
     (if cstr_at ts 20 \<noteq> CHR ''Z'' \<and> cstr_at ts 19 \<noteq> CHR ''Z'' then
        (let bytes = (if (length ts - 1) - 20 > 6 then 6 else (length ts - 1) - 20);
             micro_buf = take bytes (drop 20 ts) @ drop bytes ''000000''
         in strtoull micro_buf)
      else (0, False))"

text \<open>Lines 328 to 341: the fields, each stored into a \<open>uint32_t\<close>, and \<open>errno\<close>.\<close>

definition ts_fields :: "string \<Rightarrow> tm \<times> bool" where
  "ts_fields ts =
     (let (y, e1) = strtoul ts;
          (mo, e2) = strtoul (drop 5 ts);
          (d, e3) = strtoul (drop 8 ts);
          (h, e4) = strtoul (drop 11 ts);
          (mi, e5) = strtoul (drop 14 ts);
          (s, e6) = strtoul (drop 17 ts);
          (us, e7) = ts_micro ts
      in (\<lparr>year = y mod 2 ^ 32, month = mo mod 2 ^ 32, day = d mod 2 ^ 32, yday = 0,
           hour = h mod 2 ^ 32, minute = mi mod 2 ^ 32, second = s mod 2 ^ 32, micro = us\<rparr>,
          e1 \<or> e2 \<or> e3 \<or> e4 \<or> e5 \<or> e6 \<or> e7))"

text \<open>Lines 349 to 365: the range checks, in the order of the source.\<close>

definition ts_range :: "string \<Rightarrow> tm \<Rightarrow> diag option" where
  "ts_range ts t =
     (if year t < 2000 \<or> year t > 4027 then Some (Date_out_of_range ts)
      else if month t < 1 \<or> month t > 12 \<or> day t > 31
              \<or> hour t > 23 \<or> minute t > 59 \<or> second t > 60
           then Some (Datestring_not_a_date ts)
      else if month t = 2 \<and> day t > 29 then Some (Datestring_not_a_date ts)
      else None)"

text \<open>
  Lines 371 to 384: the days of the months before \<open>month\<close>; \<open>y\<close> is the year less 2000.
  The counter is a \<open>uint8_t\<close>; the loop runs after the range checks, with \<open>month\<close> at
  most 12.
\<close>

function yday_loop :: "nat \<Rightarrow> nat \<Rightarrow> nat \<Rightarrow> nat \<Rightarrow> nat" where
  "yday_loop i mo y acc =
     (if i < mo then
        yday_loop (i + 1) mo y
          ((if i = 2 then
              (if (y mod 4 = 0 \<and> y mod 100 \<noteq> 0) \<or> y mod 400 = 0 then acc + 29 else acc + 28)
            else if i < 8 then acc + (30 + i mod 2)
            else acc + (30 + (i + 1) mod 2)) mod 2 ^ 32)
      else acc)"
  by pat_completeness auto
termination
  by (relation "measure (\<lambda>(i, mo, y, acc). mo - i)") auto

declare yday_loop.simps [simp del]

text \<open>
  Lines 368 to 392. Every operand of the sum is a \<open>uint32_t\<close> or an \<open>int\<close> constant, so
  the sum is computed in 32 bits and only then widened to the 64-bit \<open>epoch\<close>. The table
  is read at index \<open>year\<close>; a read outside it has no result.
\<close>

definition ts_seconds :: "nat list \<Rightarrow> tm \<Rightarrow> nat" where
  "ts_seconds leapyears t =
     (let y = (year t + 2 ^ 32 - 2000) mod 2 ^ 32;
          yd = (yday_loop 1 (month t) y 0 + day t) mod 2 ^ 32
      in (second t + minute t * 60 + hour t * 3600
          + ((yd + 2 ^ 32 - 1) mod 2 ^ 32) * 86400
          + (leapyears ! y) * 86400 + y * 31536000) mod 2 ^ 32)"

definition ts_epoch :: "nat list \<Rightarrow> tm \<Rightarrow> nat option" where
  "ts_epoch leapyears t =
     (if (year t + 2 ^ 32 - 2000) mod 2 ^ 32 < length leapyears
      then Some ((ts_seconds leapyears t * 1000000 + micro t) mod 2 ^ 64)
      else None)"

text \<open>
  The formatter without its buffer: \<open>Inl d\<close> when it logs \<open>d\<close> and returns false,
  \<open>Inr epoch\<close> when it returns true.
\<close>

definition timestamp_epoch :: "nat list \<Rightarrow> string \<Rightarrow> (diag + nat) option" where
  "timestamp_epoch leapyears ts =
     (if \<not> ts_supported ts then Some (Inl (Datestring_not_supported ts))
      else
        (let (t, errno) = ts_fields ts
         in if errno then Some (Inl Error_in_date_conversion)
            else (case ts_range ts t of
                    Some d \<Rightarrow> Some (Inl d)
                  | None \<Rightarrow> map_option Inr (ts_epoch leapyears t))))"

subsection \<open>json-c and the heap\<close>

text \<open>
  json-c is an external library: its three functions the hook calls are parameters of the
  model. A \<open>json_object *\<close> is a \<open>'j option\<close>, \<open>None\<close> being NULL; json-c represents the
  JSON value null by NULL. \<open>json_tokener_parse\<close> returns NULL when the text does not
  parse. \<open>json_pointer_get lib obj path\<close> gives the \<open>int\<close> the C function returns
  (0 on success, negative otherwise) and the content of \<open>found\<close> after the call, which
  the caller sets to NULL before it. \<open>json_object_get_string\<close> is given for objects;
  applied to NULL the C function returns NULL.
\<close>

record 'j jsonc =
  json_tokener_parse :: "string \<Rightarrow> 'j option"
  json_pointer_get :: "'j \<Rightarrow> string \<Rightarrow> int \<times> 'j option"
  json_object_get_string :: "'j \<Rightarrow> string"

text \<open>
  The \<open>void *result\<close> of a needle points into the JSON tree (a string json-c owns) or to
  a block of the heap. The heap maps the address of each live block to the bytes written
  to it; \<open>brk\<close> is the address the next \<open>malloc\<close> returns.
\<close>

type_synonym addr = nat

datatype ptr = JsonStr string | Block addr

record heap =
  blocks :: "addr \<Rightarrow> string option"
  brk :: addr

definition malloc :: "heap \<Rightarrow> addr \<times> heap" where
  "malloc h = (brk h, h\<lparr>blocks := (blocks h)(brk h \<mapsto> []), brk := Suc (brk h)\<rparr>)"

text \<open>\<open>free(p)\<close> for a non-NULL \<open>p\<close>: defined only for the address of a live block.\<close>

definition libc_free :: "heap \<Rightarrow> ptr \<Rightarrow> heap option" where
  "libc_free h p =
     (case p of
        JsonStr s \<Rightarrow> None
      | Block a \<Rightarrow> (if blocks h a = None then None else Some (h\<lparr>blocks := (blocks h)(a := None)\<rparr>)))"

text \<open>\<open>memcpy(dst, p, n)\<close>: the \<open>n\<close> bytes read at \<open>p\<close>.\<close>

definition memcpy_from :: "heap \<Rightarrow> ptr \<Rightarrow> nat \<Rightarrow> string option" where
  "memcpy_from h p n =
     (case p of
        JsonStr s \<Rightarrow> (if n \<le> length s then Some (take n s) else None)
      | Block a \<Rightarrow>
          (case blocks h a of
             None \<Rightarrow> None
           | Some bs \<Rightarrow> (if n \<le> length bs then Some (take n bs) else None)))"

subsection \<open>Needles, the compiled state, messages\<close>

text \<open>A function pointer is the name of the function it points to, or \<open>None\<close> for NULL.\<close>

datatype format_fn = Json_to_pqtext | Json_to_pqtimestamp
datatype free_fn = Obj_noop | Obj_free
datatype action_fn =
  Action_store | Action_store_true | Action_discard_false | Action_discard_true
  | Action_store_meta
datatype filter_fn = Filter_noop | Filter_match | Filter_substr | Filter_exists

record needle =
  jpointer :: string
  format :: "format_fn option"
  free :: "free_fn option"
  leapyears :: "nat list"
  length' :: nat
  result :: "ptr option"
  action :: "action_fn option"
  filter' :: "filter_fn option"
  store :: bool
  filter_data :: "string option"
  metadata :: bool

record Internal =
  needles :: "needle list"
  leapyears_shared :: "nat list"
  ncount :: nat
  fields' :: nat

datatype MType = MTYPE_STRING

record MDatum =
  mtype :: MType
  mvalue :: string
  mlen :: nat

text \<open>
  A message: the bytes of its buffer, the length of the payload, and the metadata map.
  The producer stores a NUL at \<open>data[len]\<close>.
\<close>

record Message =
  data :: string
  len :: nat
  mdata :: "string \<Rightarrow> MDatum option"

text \<open>
  Modelled from the spec: \<open>metadata_insert\<close> (utils/metadata.c is not among the
  sources). The spec: insertions go under the given key, and the last insertion under a
  key wins.
\<close>

definition metadata_insert ::
  "(string \<Rightarrow> MDatum option) \<Rightarrow> string \<Rightarrow> MDatum \<Rightarrow> (string \<Rightarrow> MDatum option)" where
  "metadata_insert md k d = md(k \<mapsto> d)"

subsection \<open>The registries: types, actions, filters\<close>

datatype PqTypes = pqtype_undef | pqtype_text | pqtype_timestamp

datatype ActionTypes =
  action_undef | action_store | action_store_true | action_discard_false
  | action_discard_true | action_store_meta

datatype FilterTypes = filter_undef | filter_noop | filter_match | filter_substr | filter_exists

fun pq_types :: "PqTypes \<Rightarrow> string \<times> format_fn option \<times> free_fn option" where
  "pq_types pqtype_undef = (''undef'', None, None)"
| "pq_types pqtype_text = (''text'', Some Json_to_pqtext, Some Obj_noop)"
| "pq_types pqtype_timestamp = (''timestamp'', Some Json_to_pqtimestamp, Some Obj_free)"

fun action_types :: "ActionTypes \<Rightarrow> string \<times> action_fn option \<times> bool" where
  "action_types action_undef = (''undef'', None, False)"
| "action_types action_store = (''store'', Some Action_store, True)"
| "action_types action_store_true = (''store_true'', Some Action_store_true, True)"
| "action_types action_discard_false = (''discard_false'', Some Action_discard_false, False)"
| "action_types action_discard_true = (''discard_true'', Some Action_discard_true, False)"
| "action_types action_store_meta = (''store_meta'', Some Action_store_meta, True)"

fun filter_types :: "FilterTypes \<Rightarrow> string \<times> filter_fn option \<times> bool" where
  "filter_types filter_undef = (''undef'', None, False)"
| "filter_types filter_noop = (''noop'', Some Filter_noop, False)"
| "filter_types filter_match = (''match'', Some Filter_match, True)"
| "filter_types filter_substr = (''substr'', Some Filter_substr, True)"
| "filter_types filter_exists = (''exists'', Some Filter_exists, False)"

text \<open>The lookups by name scan the table from its second row.\<close>

definition actiontype_enum :: "string \<Rightarrow> ActionTypes" where
  "actiontype_enum action_type =
     (case find (\<lambda>t. action_type = fst (action_types t))
             [action_store, action_store_true, action_discard_false, action_discard_true,
              action_store_meta] of
        Some t \<Rightarrow> t | None \<Rightarrow> action_undef)"

definition filtertype_enum :: "string \<Rightarrow> FilterTypes" where
  "filtertype_enum filter_type =
     (case find (\<lambda>t. filter_type = fst (filter_types t))
             [filter_noop, filter_match, filter_substr, filter_exists] of
        Some t \<Rightarrow> t | None \<Rightarrow> filter_undef)"

definition pqtype_enum :: "string \<Rightarrow> PqTypes" where
  "pqtype_enum pqtype =
     (case find (\<lambda>t. pqtype = fst (pq_types t)) [pqtype_text, pqtype_timestamp] of
        Some t \<Rightarrow> t | None \<Rightarrow> pqtype_undef)"

subsection \<open>Result disposers\<close>

text \<open>
  The argument \<open>void **obj\<close> is NULL (\<open>None\<close>) or the address of a pointer variable,
  given by the pointer it holds; the functions return the heap and what the variable
  holds afterwards.
\<close>

definition obj_noop :: "heap \<Rightarrow> ptr option option \<Rightarrow> (heap \<times> ptr option option) option" where
  "obj_noop h obj = Some (h, obj)"

definition obj_free :: "heap \<Rightarrow> ptr option option \<Rightarrow> (heap \<times> ptr option option) option" where
  "obj_free h obj =
     (case obj of
        None \<Rightarrow> Some (h, obj)
      | Some None \<Rightarrow> Some (h, obj)
      | Some (Some p) \<Rightarrow>
          (case libc_free h p of None \<Rightarrow> None | Some h' \<Rightarrow> Some (h', Some None)))"

text \<open>\<open>current->free(&current->result)\<close>: a call through the needle's function pointer.\<close>

definition call_free :: "heap \<Rightarrow> needle \<Rightarrow> (heap \<times> needle) option" where
  "call_free h current =
     (case free current of
        None \<Rightarrow> None
      | Some f \<Rightarrow>
          (case (case f of Obj_noop \<Rightarrow> obj_noop h (Some (result current))
                 | Obj_free \<Rightarrow> obj_free h (Some (result current))) of
             None \<Rightarrow> None
           | Some (h', obj') \<Rightarrow>
               Some (h', current\<lparr>result := (case obj' of None \<Rightarrow> result current | Some r \<Rightarrow> r)\<rparr>)))"

subsection \<open>Actions and filters\<close>

definition action_store_fn :: "bool \<Rightarrow> 'j option \<Rightarrow> needle \<Rightarrow> bool \<times> needle" where
  "action_store_fn filter_ret found current = (True, current)"

definition action_store_true_fn :: "bool \<Rightarrow> 'j option \<Rightarrow> needle \<Rightarrow> bool \<times> needle" where
  "action_store_true_fn filter_ret found current = (filter_ret, current)"

definition action_discard_false_fn :: "bool \<Rightarrow> 'j option \<Rightarrow> needle \<Rightarrow> bool \<times> needle" where
  "action_discard_false_fn filter_ret found current = (filter_ret, current)"

definition action_discard_true_fn :: "bool \<Rightarrow> 'j option \<Rightarrow> needle \<Rightarrow> bool \<times> needle" where
  "action_discard_true_fn filter_ret found current = (\<not> filter_ret, current)"

definition action_store_meta_fn :: "bool \<Rightarrow> 'j option \<Rightarrow> needle \<Rightarrow> bool \<times> needle" where
  "action_store_meta_fn filter_ret found current =
     (True, if found \<noteq> None then current\<lparr>metadata := True\<rparr> else current)"

text \<open>\<open>strstr(s, d) != NULL\<close>: \<open>d\<close> occurs in \<open>s\<close>.\<close>

fun strstr :: "string \<Rightarrow> string \<Rightarrow> bool" where
  "strstr [] d = (d = [])"
| "strstr (c # cs) d = (take (length d) (c # cs) = d \<or> strstr cs d)"

text \<open>
  The filters return \<open>None\<close> where the C code passes NULL to \<open>strcmp\<close> or \<open>strstr\<close>:
  a needle with no \<open>filter_data\<close>.
\<close>

definition filter_match_fn :: "'j jsonc \<Rightarrow> bool \<Rightarrow> 'j option \<Rightarrow> needle \<Rightarrow> bool option" where
  "filter_match_fn lib jpointer' found current =
     (if jpointer' = False \<or> found = None then Some False
      else (case filter_data current of
              None \<Rightarrow> None
            | Some d \<Rightarrow> Some (json_object_get_string lib (the found) = d)))"

definition filter_substr_fn :: "'j jsonc \<Rightarrow> bool \<Rightarrow> 'j option \<Rightarrow> needle \<Rightarrow> bool option" where
  "filter_substr_fn lib jpointer' found current =
     (if jpointer' = False \<or> found = None then Some False
      else (case filter_data current of
              None \<Rightarrow> None
            | Some d \<Rightarrow> Some (strstr (json_object_get_string lib (the found)) d)))"

definition filter_noop_fn :: "'j jsonc \<Rightarrow> bool \<Rightarrow> 'j option \<Rightarrow> needle \<Rightarrow> bool option" where
  "filter_noop_fn lib jpointer' found current = Some True"

definition filter_exists_fn :: "'j jsonc \<Rightarrow> bool \<Rightarrow> 'j option \<Rightarrow> needle \<Rightarrow> bool option" where
  "filter_exists_fn lib jpointer' found current = Some jpointer'"

definition call_filter :: "'j jsonc \<Rightarrow> bool \<Rightarrow> 'j option \<Rightarrow> needle \<Rightarrow> bool option" where
  "call_filter lib jpointer' found current =
     (case filter' current of
        None \<Rightarrow> None
      | Some Filter_noop \<Rightarrow> filter_noop_fn lib jpointer' found current
      | Some Filter_match \<Rightarrow> filter_match_fn lib jpointer' found current
      | Some Filter_substr \<Rightarrow> filter_substr_fn lib jpointer' found current
      | Some Filter_exists \<Rightarrow> filter_exists_fn lib jpointer' found current)"

definition call_action :: "bool \<Rightarrow> 'j option \<Rightarrow> needle \<Rightarrow> (bool \<times> needle) option" where
  "call_action filter_ret found current =
     (case action current of
        None \<Rightarrow> None
      | Some Action_store \<Rightarrow> Some (action_store_fn filter_ret found current)
      | Some Action_store_true \<Rightarrow> Some (action_store_true_fn filter_ret found current)
      | Some Action_discard_false \<Rightarrow> Some (action_discard_false_fn filter_ret found current)
      | Some Action_discard_true \<Rightarrow> Some (action_discard_true_fn filter_ret found current)
      | Some Action_store_meta \<Rightarrow> Some (action_store_meta_fn filter_ret found current))"

subsection \<open>Formatters\<close>

text \<open>
  Both formatters call \<open>strlen\<close> on what \<open>json_object_get_string\<close> returns, which is NULL
  for a NULL object. They return whether they succeeded, the needle, the heap and what
  they logged.
\<close>

definition json_to_pqtext ::
  "'j jsonc \<Rightarrow> 'j option \<Rightarrow> needle \<Rightarrow> heap \<Rightarrow> (bool \<times> needle \<times> heap \<times> diag list) option" where
  "json_to_pqtext lib found current h =
     (case found of
        None \<Rightarrow> None
      | Some v \<Rightarrow>
          (let s = json_object_get_string lib v
           in Some (True, current\<lparr>result := Some (JsonStr s), length' := length s mod 2 ^ 32\<rparr>,
                    h, [])))"

definition json_to_pqtimestamp ::
  "'j jsonc \<Rightarrow> 'j option \<Rightarrow> needle \<Rightarrow> heap \<Rightarrow> (bool \<times> needle \<times> heap \<times> diag list) option" where
  "json_to_pqtimestamp lib found current h =
     (case found of
        None \<Rightarrow> None
      | Some v \<Rightarrow>
          (let ts = json_object_get_string lib v;
               (a, h1) = malloc h;
               cur1 = current\<lparr>result := Some (Block a)\<rparr>
           in (case timestamp_epoch (leapyears current) ts of
                 None \<Rightarrow> None
               | Some (Inl d) \<Rightarrow> Some (False, cur1, h1, [d])
               | Some (Inr epoch) \<Rightarrow>
                   Some (True, cur1\<lparr>length' := 8\<rparr>,
                         h1\<lparr>blocks := (blocks h1)(a \<mapsto> htobe64 epoch)\<rparr>, []))))"

definition call_format ::
  "'j jsonc \<Rightarrow> 'j option \<Rightarrow> needle \<Rightarrow> heap \<Rightarrow> (bool \<times> needle \<times> heap \<times> diag list) option" where
  "call_format lib found current h =
     (case format current of
        None \<Rightarrow> None
      | Some Json_to_pqtext \<Rightarrow> json_to_pqtext lib found current h
      | Some Json_to_pqtimestamp \<Rightarrow> json_to_pqtimestamp lib found current h)"

subsection \<open>libconfig settings\<close>

text \<open>
  libconfig is an external library; the model follows its data model. A setting is a
  scalar (a string, whose value pointer can be NULL, or a number or a boolean), an array
  of scalars, a list of any settings, or a group of named settings. An absent setting
  is the NULL pointer, \<open>None\<close>.
\<close>

datatype setting =
    Conf_int int
  | Conf_float
  | Conf_bool bool
  | Conf_string "string option"
  | Conf_array "setting list"
  | Conf_list "setting list"
  | Conf_group "(string \<times> setting) list"

definition config_setting_elems :: "setting \<Rightarrow> setting list" where
  "config_setting_elems s =
     (case s of Conf_array xs \<Rightarrow> xs | Conf_list xs \<Rightarrow> xs | Conf_group ms \<Rightarrow> map snd ms
      | _ \<Rightarrow> [])"

definition config_setting_length :: "setting \<Rightarrow> nat" where
  "config_setting_length s = length (config_setting_elems s)"

definition config_setting_get_elem :: "setting \<Rightarrow> nat \<Rightarrow> setting option" where
  "config_setting_get_elem s i =
     (if i < length (config_setting_elems s) then Some (config_setting_elems s ! i) else None)"

definition config_setting_get_string :: "setting \<Rightarrow> string option" where
  "config_setting_get_string s = (case s of Conf_string v \<Rightarrow> v | _ \<Rightarrow> None)"

definition config_setting_get_member :: "setting \<Rightarrow> string \<Rightarrow> setting option" where
  "config_setting_get_member s name = (case s of Conf_group ms \<Rightarrow> map_of ms name | _ \<Rightarrow> None)"

text \<open>
  \<open>config_setting_lookup_string\<close> returns \<open>CONFIG_TRUE\<close> and stores the value when the
  member exists and is a string: \<open>Some\<close> of the stored pointer.
\<close>

definition config_setting_lookup_string :: "setting \<Rightarrow> string \<Rightarrow> string option option" where
  "config_setting_lookup_string s name =
     (case config_setting_get_member s name of
        Some (Conf_string v) \<Rightarrow> Some v
      | _ \<Rightarrow> None)"

definition config_setting_is_scalar :: "setting \<Rightarrow> bool" where
  "config_setting_is_scalar s =
     (case s of Conf_int _ \<Rightarrow> True | Conf_float \<Rightarrow> True | Conf_bool _ \<Rightarrow> True
      | Conf_string _ \<Rightarrow> True | _ \<Rightarrow> False)"

definition config_setting_is_array :: "setting \<Rightarrow> bool" where
  "config_setting_is_array s = (case s of Conf_array _ \<Rightarrow> True | _ \<Rightarrow> False)"

definition config_setting_is_group :: "setting \<Rightarrow> bool" where
  "config_setting_is_group s = (case s of Conf_group _ \<Rightarrow> True | _ \<Rightarrow> False)"

definition config_setting_is_list :: "setting \<Rightarrow> bool" where
  "config_setting_is_list s = (case s of Conf_list _ \<Rightarrow> True | _ \<Rightarrow> False)"

subsection \<open>The needle compiler (\<open>_needles\<close>, \<open>h_jsonexport_init\<close>)\<close>

text \<open>
  \<open>config_setting_get_string(config_setting_get_elem(setting, i))\<close>: \<open>None\<close> when the
  element is absent (the call dereferences NULL), else the string pointer.
\<close>

definition elem_string :: "setting \<Rightarrow> nat \<Rightarrow> string option option" where
  "elem_string s i = map_option config_setting_get_string (config_setting_get_elem s i)"

text \<open>
  One iteration of the loop of \<open>_needles\<close>. It has no result (\<open>None\<close>) when the entry is
  not an array (\<open>abort\<close>) or when a string it passes to \<open>strdup\<close> or \<open>strcmp\<close> is NULL.
\<close>

definition needle_of :: "nat list \<Rightarrow> setting \<Rightarrow> needle option" where
  "needle_of leap s =
     (if \<not> config_setting_is_array s then None
      else
        (case (elem_string s 0, elem_string s 1, elem_string s 2, elem_string s 3) of
           (Some (Some jp), Some (Some t), Some (Some a), Some (Some f)) \<Rightarrow>
             (let pqtype = pqtype_enum t;
                  actiontype = actiontype_enum a;
                  filtertype = filtertype_enum f
              in (case (if snd (snd (filter_types filtertype)) then elem_string s 4
                        else Some None) of
                    None \<Rightarrow> None
                  | Some fd \<Rightarrow>
                      Some \<lparr>jpointer = jp,
                            format = fst (snd (pq_types pqtype)),
                            free = snd (snd (pq_types pqtype)),
                            leapyears = leap,
                            length' = 0,
                            result = None,
                            action = fst (snd (action_types actiontype)),
                            filter' = fst (snd (filter_types filtertype)),
                            store = snd (snd (action_types actiontype)),
                            filter_data = fd,
                            metadata = False\<rparr>))
         | _ \<Rightarrow> None))"

text \<open>The loop: the needles, and \<open>internal->fields\<close>, a \<open>uint16_t\<close> counted up.\<close>

fun needles_loop :: "nat list \<Rightarrow> setting list \<Rightarrow> nat \<Rightarrow> (needle list \<times> nat) option" where
  "needles_loop leap [] flds = Some ([], flds)"
| "needles_loop leap (s # ss) flds =
     (case needle_of leap s of
        None \<Rightarrow> None
      | Some n \<Rightarrow>
          (case needles_loop leap ss (if store n then (flds + 1) mod 2 ^ 16 else flds) of
             None \<Rightarrow> None
           | Some (ns, f) \<Rightarrow> Some (n # ns, f)))"

definition h_jsonexport_init :: "setting \<Rightarrow> Internal option" where
  "h_jsonexport_init config =
     (case config_setting_get_member config ''jpointers'' of
        None \<Rightarrow> None
      | Some needlestack \<Rightarrow>
          (case needles_loop leapyear (config_setting_elems needlestack) 0 of
             None \<Rightarrow> None
           | Some (ns, f) \<Rightarrow>
               Some \<lparr>needles = ns, leapyears_shared = leapyear,
                     ncount = config_setting_length needlestack mod 2 ^ 16,
                     fields' = f\<rparr>))"

subsection \<open>The evaluator (\<open>_deref\<close>)\<close>

text \<open>
  One iteration of the loop of \<open>_deref\<close>: the value the function returns if it returns in
  this iteration (1 or -1), or 0 when the loop goes on.
\<close>

definition deref_needle ::
  "'j jsonc \<Rightarrow> 'j \<Rightarrow> heap \<Rightarrow> needle \<Rightarrow> (int \<times> needle \<times> heap \<times> diag list) option" where
  "deref_needle lib haystack h n =
     (let (ret, found) = json_pointer_get lib haystack (jpointer n)
      in (case call_filter lib (ret = 0) found n of
            None \<Rightarrow> None
          | Some filter_ret \<Rightarrow>
              (case call_action filter_ret found n of
                 None \<Rightarrow> None
               | Some (keep, n1) \<Rightarrow>
                   if \<not> keep then Some (1, n1, h, [])
                   else if ret \<noteq> 0 then
                     Some (0, n1\<lparr>result := None, length' := 2 ^ 32 - 1\<rparr>, h, [])
                   else
                     (case call_format lib found n1 h of
                        None \<Rightarrow> None
                      | Some (ok, n2, h2, lg) \<Rightarrow>
                          if \<not> ok then Some (- 1, n2, h2, lg @ [Failed_jpointer_deref (jpointer n)])
                          else Some (0, n2, h2, lg)))))"

fun deref ::
  "'j jsonc \<Rightarrow> 'j \<Rightarrow> heap \<Rightarrow> needle list \<Rightarrow> (int \<times> needle list \<times> heap \<times> diag list) option" where
  "deref lib haystack h [] = Some (0, [], h, [])"
| "deref lib haystack h (n # ns) =
     (case deref_needle lib haystack h n of
        None \<Rightarrow> None
      | Some (r, n', h', lg) \<Rightarrow>
          if r \<noteq> 0 then Some (r, n' # ns, h', lg)
          else (case deref lib haystack h' ns of
                  None \<Rightarrow> None
                | Some (r', ns', h'', lg') \<Rightarrow> Some (r', n' # ns', h'', lg @ lg')))"

subsection \<open>The working copy and its release\<close>

text \<open>\<open>_copy_internal\<close> copies the first \<open>ncount\<close> needles of the compiled state.\<close>

definition copy_internal :: "Internal \<Rightarrow> Internal option" where
  "copy_internal global =
     (if ncount global \<le> length (needles global)
      then Some (global\<lparr>needles := take (ncount global) (needles global)\<rparr>)
      else None)"

text \<open>The loop \<open>needles[i]->free(&needles[i]->result)\<close> over the working copy.\<close>

fun free_results :: "heap \<Rightarrow> needle list \<Rightarrow> (heap \<times> needle list) option" where
  "free_results h [] = Some (h, [])"
| "free_results h (n # ns) =
     (case call_free h n of
        None \<Rightarrow> None
      | Some (h', n') \<Rightarrow>
          (case free_results h' ns of
             None \<Rightarrow> None
           | Some (h'', ns') \<Rightarrow> Some (h'', n' # ns')))"

definition free_internal :: "heap \<Rightarrow> Internal \<Rightarrow> heap option" where
  "free_internal h internal = map_option fst (free_results h (needles internal))"

subsection \<open>The row serializer and the hook (\<open>h_jsonexport\<close>)\<close>

text \<open>
  One iteration of the loop at lines 577 to 602, for a needle with \<open>store\<close> set: the
  length, the payload when \<open>result\<close> is not NULL, then the disposer; and the metadata
  copy, which reads \<open>result\<close> after the disposer ran.
\<close>

definition serialize_needle ::
  "heap \<Rightarrow> needle \<Rightarrow> string \<Rightarrow> (string \<Rightarrow> MDatum option)
   \<Rightarrow> (string \<times> needle \<times> heap \<times> (string \<Rightarrow> MDatum option)) option" where
  "serialize_needle h n buf md =
     (let buf1 = buf @ htobe32 (length' n)
      in (case (case result n of
                  None \<Rightarrow> Some (buf1, n, h)
                | Some p \<Rightarrow>
                    (case memcpy_from h p (length' n) of
                       None \<Rightarrow> None
                     | Some bs \<Rightarrow>
                         (case call_free h n of
                            None \<Rightarrow> None
                          | Some (h', n') \<Rightarrow> Some (buf1 @ bs, n', h')))) of
            None \<Rightarrow> None
          | Some (buf2, n2, h2) \<Rightarrow>
              if metadata n2 then
                (case result n2 of
                   None \<Rightarrow> None
                 | Some p \<Rightarrow>
                     (case memcpy_from h2 p (length' n2) of
                        None \<Rightarrow> None
                      | Some bs \<Rightarrow>
                          if (length' n2 + 1) mod 2 ^ 32 < length' n2 then None
                          else Some (buf2, n2, h2,
                                 metadata_insert md ''jpointer''
                                   \<lparr>mtype = MTYPE_STRING,
                                    mvalue = bs @ replicate ((length' n2 + 1) mod 2 ^ 32 - length' n2) (CHR 0x00),
                                    mlen = (length' n2 + 1) mod 2 ^ 32\<rparr>)))
              else Some (buf2, n2, h2, md)))"

fun serialize ::
  "heap \<Rightarrow> needle list \<Rightarrow> string \<Rightarrow> (string \<Rightarrow> MDatum option)
   \<Rightarrow> (string \<times> needle list \<times> heap \<times> (string \<Rightarrow> MDatum option)) option" where
  "serialize h [] buf md = Some (buf, [], h, md)"
| "serialize h (n # ns) buf md =
     (if \<not> store n then
        (case serialize h ns buf md of
           None \<Rightarrow> None
         | Some (b, ns', h', md') \<Rightarrow> Some (b, n # ns', h', md'))
      else
        (case serialize_needle h n buf md of
           None \<Rightarrow> None
         | Some (buf2, n2, h2, md2) \<Rightarrow>
             (case serialize h2 ns buf2 md2 of
                None \<Rightarrow> None
              | Some (b, ns', h', md') \<Rightarrow> Some (b, n2 # ns', h', md'))))"

text \<open>
  The hook. It returns whether the message is kept, the message, the heap and the log.
  The test at line 562 assigns \<open>_deref(...) != 0\<close> to \<open>ret\<close>, so \<open>ret\<close> is 0 or 1 and
  the diagnostic guarded by \<open>ret == -1\<close> is never written.
\<close>

definition h_jsonexport ::
  "'j jsonc \<Rightarrow> Internal \<Rightarrow> Message \<Rightarrow> heap \<Rightarrow> (bool \<times> Message \<times> heap \<times> diag list) option" where
  "h_jsonexport lib ctx msg h =
     (case copy_internal ctx of
        None \<Rightarrow> None
      | Some internal \<Rightarrow>
          if \<not> len msg < length (data msg) then None
          else if data msg ! len msg \<noteq> CHR 0x00 then
            Some (False, msg, h, [Payload_without_null_terminator])
          else
            (case json_tokener_parse lib (takeWhile (\<lambda>c. c \<noteq> CHR 0x00) (data msg)) of
               None \<Rightarrow>
                 (case free_internal h internal of
                    None \<Rightarrow> None
                  | Some h' \<Rightarrow> Some (False, msg, h', [Failed_to_tokenize_json]))
             | Some haystack \<Rightarrow>
                 (case deref lib haystack h (needles internal) of
                    None \<Rightarrow> None
                  | Some (ret, ns, h1, lg) \<Rightarrow>
                      if ret \<noteq> 0 then
                        (case free_results h1 ns of
                           None \<Rightarrow> None
                         | Some (h2, ns2) \<Rightarrow>
                             (case free_internal h2 (internal\<lparr>needles := ns2\<rparr>) of
                                None \<Rightarrow> None
                              | Some h3 \<Rightarrow> Some (False, msg, h3, lg)))
                      else
                        (case serialize h1 ns (htons (fields' internal)) (mdata msg) of
                           None \<Rightarrow> None
                         | Some (buf, ns2, h2, md) \<Rightarrow>
                             (case free_internal h2 (internal\<lparr>needles := ns2\<rparr>) of
                                None \<Rightarrow> None
                              | Some h3 \<Rightarrow>
                                  Some (True, msg\<lparr>data := buf, len := length buf, mdata := md\<rparr>,
                                        h3, lg))))))"

subsection \<open>The configuration validator (\<open>h_jsonexport_validate\<close>)\<close>

text \<open>
  What one step of the validator comes to: it crashes (a NULL string reaches \<open>strcmp\<close>),
  it jumps to \<open>error\<close>, or it goes on with a value.
\<close>

datatype 'a verdict = Crash | Reject | Accept 'a

text \<open>
  Modelled from the spec: the macros \<open>CONF_GET_MEM\<close>, \<open>CONF_IS_LIST\<close> and
  \<open>CONF_L_IS_STRING\<close> of utils/config.h, which is not among the sources. The spec:
  the validator requires the member \<open>jpointers\<close>, requires it to be a list, and in the
  group form reads the named key \<open>jpointer\<close> as a string.
\<close>

definition conf_get_mem :: "setting \<Rightarrow> string \<Rightarrow> setting option" where
  "conf_get_mem config name = config_setting_get_member config name"

definition conf_is_list :: "setting \<Rightarrow> bool" where
  "conf_is_list s = config_setting_is_list s"

definition conf_l_is_string :: "setting \<Rightarrow> string \<Rightarrow> string option option" where
  "conf_l_is_string s name = config_setting_lookup_string s name"

text \<open>
  An optional element of the array form (lines 714 to 745): absent, the default stays;
  present with a string the table does not know, error; else the string, which is NULL
  for an element that is no string.
\<close>

definition array_field ::
  "setting \<Rightarrow> nat \<Rightarrow> string \<Rightarrow> (string \<Rightarrow> bool) \<Rightarrow> string option verdict" where
  "array_field child i dflt known =
     (case config_setting_get_elem child i of
        None \<Rightarrow> Accept (Some dflt)
      | Some member \<Rightarrow>
          (case config_setting_get_string member of
             None \<Rightarrow> Accept None
           | Some conf \<Rightarrow> if \<not> known conf then Reject else Accept (Some conf)))"

text \<open>An optional key of the group form (lines 766 to 791).\<close>

definition group_field ::
  "setting \<Rightarrow> string \<Rightarrow> string \<Rightarrow> (string \<Rightarrow> bool) \<Rightarrow> string option verdict" where
  "group_field child name dflt known =
     (case config_setting_lookup_string child name of
        None \<Rightarrow> Accept (Some dflt)
      | Some None \<Rightarrow> Crash
      | Some (Some conf) \<Rightarrow> if \<not> known conf then Reject else Accept (Some conf))"

definition known_pqtype :: "string \<Rightarrow> bool" where
  "known_pqtype conf = (pqtype_enum conf \<noteq> pqtype_undef)"

definition known_action :: "string \<Rightarrow> bool" where
  "known_action conf = (actiontype_enum conf \<noteq> action_undef)"

definition known_filter :: "string \<Rightarrow> bool" where
  "known_filter conf = (filtertype_enum conf \<noteq> filter_undef)"

type_synonym tuple5 =
  "string option \<times> string option \<times> string option \<times> string option \<times> string option"

definition validate_array :: "setting \<Rightarrow> tuple5 verdict" where
  "validate_array child =
     (case config_setting_get_elem child 0 of
        None \<Rightarrow> Reject
      | Some member \<Rightarrow>
          (case config_setting_get_string member of
             None \<Rightarrow> Reject
           | Some jp \<Rightarrow>
               (case array_field child 1 ''text'' known_pqtype of
                  Crash \<Rightarrow> Crash | Reject \<Rightarrow> Reject
                | Accept pqtype \<Rightarrow>
                    (case array_field child 2 ''store'' known_action of
                       Crash \<Rightarrow> Crash | Reject \<Rightarrow> Reject
                     | Accept act \<Rightarrow>
                         (case array_field child 3 ''noop'' known_filter of
                            Crash \<Rightarrow> Crash | Reject \<Rightarrow> Reject
                          | Accept None \<Rightarrow> Crash
                          | Accept (Some flt) \<Rightarrow>
                              if snd (snd (filter_types (filtertype_enum flt))) then
                                (case config_setting_get_elem child 4 of
                                   None \<Rightarrow> Reject
                                 | Some m4 \<Rightarrow>
                                     (case config_setting_get_string m4 of
                                        None \<Rightarrow> Reject
                                      | Some conf \<Rightarrow>
                                          Accept (Some jp, pqtype, act, Some flt, Some conf)))
                              else Accept (Some jp, pqtype, act, Some flt, Some []))))))"

definition validate_group :: "setting \<Rightarrow> tuple5 verdict" where
  "validate_group child =
     (case conf_l_is_string child ''jpointer'' of
        None \<Rightarrow> Reject
      | Some jp \<Rightarrow>
          (case group_field child ''pqtype'' ''text'' known_pqtype of
             Crash \<Rightarrow> Crash | Reject \<Rightarrow> Reject
           | Accept pqtype \<Rightarrow>
               (case group_field child ''action'' ''store'' known_action of
                  Crash \<Rightarrow> Crash | Reject \<Rightarrow> Reject
                | Accept act \<Rightarrow>
                    (case group_field child ''filter'' ''noop'' known_filter of
                       Crash \<Rightarrow> Crash | Reject \<Rightarrow> Reject
                     | Accept None \<Rightarrow> Crash
                     | Accept (Some flt) \<Rightarrow>
                         if snd (snd (filter_types (filtertype_enum flt))) then
                           (case config_setting_lookup_string child ''data'' of
                              None \<Rightarrow> Reject
                            | Some conf \<Rightarrow> Accept (jp, pqtype, act, Some flt, conf))
                         else Accept (jp, pqtype, act, Some flt, Some [])))))"

text \<open>
  Lines 685 to 805 for one entry. The last branch of the source, for an entry that is
  neither a scalar nor an array nor a group, prints its diagnostic and goes on: the
  \<open>jpointer\<close> is still NULL and the other four hold their defaults.
\<close>

definition validate_entry :: "setting \<Rightarrow> tuple5 verdict" where
  "validate_entry child =
     (if config_setting_is_scalar child then
        (case config_setting_get_string child of
           None \<Rightarrow> Reject
         | Some conf \<Rightarrow> Accept (Some conf, Some ''text'', Some ''store'', Some ''noop'', Some []))
      else if config_setting_is_array child then validate_array child
      else if config_setting_is_group child then validate_group child
      else Accept (None, Some ''text'', Some ''store'', Some ''noop'', Some []))"

text \<open>The entry the validator appends: an array of five strings (lines 681 to 683, 806 to 810).\<close>

definition new_entry :: "tuple5 \<Rightarrow> setting" where
  "new_entry t =
     (case t of (jp, pqtype, act, flt, d) \<Rightarrow>
        Conf_array [Conf_string jp, Conf_string pqtype, Conf_string act, Conf_string flt,
                    Conf_string d])"

text \<open>
  The loop, with \<open>k\<close> iterations to go over the elements \<open>xs\<close> of the list: each iteration
  reads the first element, appends its normal form and removes the first element, so
  the length stays what it was. On \<open>error\<close> the appended array is left with its five
  strings unset.
\<close>

fun validate_loop :: "nat \<Rightarrow> setting list \<Rightarrow> (bool \<times> setting list) option" where
  "validate_loop 0 xs = Some (True, xs)"
| "validate_loop (Suc k) xs =
     (case xs of
        [] \<Rightarrow> Some (False, xs)
      | child # rest \<Rightarrow>
          (case validate_entry child of
             Crash \<Rightarrow> None
           | Reject \<Rightarrow> Some (False, xs @ [new_entry (None, None, None, None, None)])
           | Accept t \<Rightarrow> validate_loop k (rest @ [new_entry t])))"

text \<open>Writing the list back into the group that holds it.\<close>

fun set_member :: "(string \<times> setting) list \<Rightarrow> string \<Rightarrow> setting \<Rightarrow> (string \<times> setting) list" where
  "set_member [] name v = []"
| "set_member ((k, x) # ms) name v =
     (if k = name then (k, v) # ms else (k, x) # set_member ms name v)"

definition h_jsonexport_validate :: "setting \<Rightarrow> (bool \<times> setting) option" where
  "h_jsonexport_validate config =
     (case conf_get_mem config ''jpointers'' of
        None \<Rightarrow> Some (False, config)
      | Some s \<Rightarrow>
          if \<not> conf_is_list s then Some (False, config)
          else
            (case validate_loop (config_setting_length s) (config_setting_elems s) of
               None \<Rightarrow> None
             | Some (ok, xs) \<Rightarrow>
                 Some (ok, (case config of
                              Conf_group ms \<Rightarrow> Conf_group (set_member ms ''jpointers'' (Conf_list xs))
                            | _ \<Rightarrow> config))))"

subsection \<open>Reading a row, and concrete scenarios\<close>

text \<open>
  The field record of a slot, as the row format defines it: the length in four bytes,
  then the bytes \<open>result\<close> points to in the heap \<open>h\<close>, none for NULL.
\<close>

definition field_record :: "heap \<Rightarrow> needle \<Rightarrow> string" where
  "field_record h n =
     htobe32 (length' n) @
     (case result n of
        None \<Rightarrow> []
      | Some p \<Rightarrow> (case memcpy_from h p (length' n) of None \<Rightarrow> [] | Some bs \<Rightarrow> bs))"

text \<open>
  json-c's answers for one document, as a table: the tokenizer knows the text \<open>text\<close> and
  returns the object \<open>root\<close> for it; \<open>tbl\<close> lists the pointers that resolve, each with the
  value found, \<open>None\<close> for the JSON null. An object is given by its string rendering.
\<close>

definition jsonc_table :: "string \<Rightarrow> string \<Rightarrow> (string \<times> string option) list \<Rightarrow> string jsonc" where
  "jsonc_table text root tbl =
     \<lparr>json_tokener_parse = (\<lambda>s. if s = text then Some root else None),
      json_pointer_get = (\<lambda>obj p. case map_of tbl p of None \<Rightarrow> (- 1, None) | Some v \<Rightarrow> (0, v)),
      json_object_get_string = (\<lambda>v. v)\<rparr>"

definition empty_heap :: heap where
  "empty_heap = \<lparr>blocks = (\<lambda>a. None), brk = 0\<rparr>"

text \<open>A message as the producer hands it over: the payload, its NUL, no metadata.\<close>

definition message_of :: "string \<Rightarrow> Message" where
  "message_of payload =
     \<lparr>data = payload @ [CHR 0x00], len = length payload, mdata = (\<lambda>k. None)\<rparr>"

text \<open>A normalised entry of the configuration, and a configuration of such entries.\<close>

definition entry5 :: "string \<Rightarrow> string \<Rightarrow> string \<Rightarrow> string \<Rightarrow> string \<Rightarrow> setting" where
  "entry5 jp t a f d = new_entry (Some jp, Some t, Some a, Some f, Some d)"

definition config_of :: "setting list \<Rightarrow> setting" where
  "config_of entries = Conf_group [(''jpointers'', Conf_list entries)]"

text \<open>
  The string rendering the spec compares in the \<open>match\<close> filter, for any located value:
  the null value is rendered as the JSON text \<open>null\<close>.
\<close>

definition spec_rendering :: "'j jsonc \<Rightarrow> 'j option \<Rightarrow> string" where
  "spec_rendering lib found =
     (case found of None \<Rightarrow> ''null'' | Some v \<Rightarrow> json_object_get_string lib v)"

text \<open>
  The scenario of two stored text needles \<open>/a\<close> and \<open>/b\<close> on the document
  \<open>{"a":"x"}\<close>: the configuration, the state compiled from it, and json-c's answers.
\<close>

definition text_store_needle :: "string \<Rightarrow> needle" where
  "text_store_needle jp =
     \<lparr>jpointer = jp, format = Some Json_to_pqtext, free = Some Obj_noop,
      leapyears = leapyear, length' = 0, result = None, action = Some Action_store,
      filter' = Some Filter_noop, store = True, filter_data = None, metadata = False\<rparr>"

definition config_ab :: setting where
  "config_ab = config_of [entry5 ''/a'' ''text'' ''store'' ''noop'' [],
                          entry5 ''/b'' ''text'' ''store'' ''noop'' []]"

definition ctx_ab :: Internal where
  "ctx_ab = \<lparr>needles = [text_store_needle ''/a'', text_store_needle ''/b''],
             leapyears_shared = leapyear, ncount = 2, fields' = 2\<rparr>"

definition lib_ab :: "string jsonc" where
  "lib_ab = jsonc_table ''{\"a\":\"x\"}'' ''{ \"a\": \"x\" }'' [(''/a'', Some ''x'')]"

definition row_ab :: Message where
  "row_ab = \<lparr>data = [CHR 0x00, CHR 0x02, CHR 0x00, CHR 0x00, CHR 0x00, CHR 0x01, CHR ''x'',
                     CHR 0xFF, CHR 0xFF, CHR 0xFF, CHR 0xFF],
             len = 11, mdata = (\<lambda>k. None)\<rparr>"

text \<open>
  The needle compiled from the entry \<open>(jp, timestamp, store, noop)\<close>: the formatter is
  \<open>_json_to_pqtimestamp\<close>, the disposer \<open>_obj_free\<close>.
\<close>

definition timestamp_store_needle :: "string \<Rightarrow> needle" where
  "timestamp_store_needle jp =
     \<lparr>jpointer = jp, format = Some Json_to_pqtimestamp, free = Some Obj_free,
      leapyears = leapyear, length' = 0, result = None, action = Some Action_store,
      filter' = Some Filter_noop, store = True, filter_data = None, metadata = False\<rparr>"

text \<open>json-c's answers for the document \<open>{"t":"ts"}\<close>, for a string \<open>ts\<close>.\<close>

definition lib_t :: "string \<Rightarrow> string jsonc" where
  "lib_t ts = jsonc_table (''{\"t\":\"'' @ ts @ ''\"}'') (''{ \"t\": \"'' @ ts @ ''\" }'')
                [(''/t'', Some ts)]"

section \<open>Properties of the hook\<close>

lemmas ts_eval = timestamp_epoch_def ts_supported_def ts_fields_def ts_micro_def ts_range_def
  ts_epoch_def ts_seconds_def strtoul_def strtoull_def isspace_def isdigit_def cstr_at_def Let_def
  yday_loop.simps

lemma leap_fill_length: "length (leap_fill i n a) = n"
  by (induction n arbitrary: i a) (auto simp: Let_def)

lemma leapyear_length: "length leapyear = 2048"
  by (simp add: leapyear_def leap_fill_length)

lemma leapyear_0: "leapyear ! 0 = 0"
  by (simp add: leapyear_def)

lemma digits_value_acc:
  "digits_value acc ds = acc * 10 ^ length ds + digits_value 0 ds"
proof (induction ds arbitrary: acc)
  case Nil
  then show ?case by simp
next
  case (Cons c cs)
  have "digits_value acc (c # cs) = digits_value (acc * 10 + (of_char c - 48)) cs" by simp
  also have "\<dots> = (acc * 10 + (of_char c - 48)) * 10 ^ length cs + digits_value 0 cs"
    by (rule Cons.IH)
  finally have 1: "digits_value acc (c # cs) = (acc * 10 + (of_char c - 48)) * 10 ^ length cs + digits_value 0 cs" .
  have 2: "digits_value 0 (c # cs) = (of_char c - 48) * 10 ^ length cs + digits_value 0 cs"
    using Cons.IH[of "of_char c - 48"] by simp
  show ?case unfolding 1 2 by (simp add: algebra_simps)
qed

lemma digits_value_snoc:
  "digits_value 0 (cs @ [c]) = digits_value 0 cs * 10 + (of_char c - 48)"
proof -
  have "\<And>acc. digits_value acc (cs @ [c]) = digits_value acc cs * 10 + (of_char c - 48)"
    by (induction cs) simp_all
  then show ?thesis .
qed

lemma digits_value_bound:
  "\<forall>c\<in>set ds. isdigit c \<Longrightarrow> digits_value 0 ds < 10 ^ length ds"
proof (induction ds rule: rev_induct)
  case Nil
  then show ?case by simp
next
  case (snoc c cs)
  have d: "(of_char c :: nat) - 48 \<le> 9" using snoc.prems by (auto simp add: isdigit_def)
  have "digits_value 0 cs < 10 ^ length cs" using snoc by simp
  then show ?case using d by (simp add: digits_value_snoc)
qed


lemma isdigit_not_space: "isdigit c \<Longrightarrow> \<not> isspace c"
  by (auto simp: isdigit_def isspace_def)

lemma isdigit_not_sign: "isdigit c \<Longrightarrow> c \<noteq> CHR ''-'' \<and> c \<noteq> CHR ''+'' \<and> c \<noteq> CHR ''Z''"
  by (auto simp: isdigit_def)

lemma strtoull_digits:
  assumes "\<forall>c\<in>set m. isdigit c" and "m \<noteq> []" and "digits_value 0 m < 2 ^ 64"
  shows "strtoull m = (digits_value 0 m, False)"
proof -
  obtain c cs where m: "m = c # cs" using assms(2) by (cases m) auto
  have c: "isdigit c" using assms(1) m by simp
  have 1: "dropWhile isspace m = m" using c m isdigit_not_space by simp
  have 2: "takeWhile isdigit m = m" using assms(1) by (simp add: takeWhile_eq_all_conv)
  show ?thesis
    unfolding strtoull_def 1
    using isdigit_not_sign[OF c] assms(2,3) 2 by (simp add: m Let_def)
qed

lemma zeros6: "''000000'' = replicate 6 (CHR ''0'')"
  by (simp add: numeral_eq_Suc)

lemma micro_buffer:
  "take (if length ds > 6 then 6 else length ds) (ds @ ''Z'')
     @ drop (if length ds > 6 then 6 else length ds) ''000000''
   = take 6 (ds @ ''000000'')"
proof (cases "length ds > 6")
  case True
  then show ?thesis by simp
next
  case False
  then have "length ds \<le> 6" by simp
  then show ?thesis unfolding zeros6 by (simp add: min_def)
qed

lemma take6_digits:
  assumes "\<forall>c\<in>set (take 6 ds). isdigit c"
  shows "\<forall>c\<in>set (take 6 (ds @ ''000000'')). isdigit c"
proof
  fix c assume "c \<in> set (take 6 (ds @ ''000000''))"
  then have "c \<in> set (take 6 ds) \<or> c \<in> set (take (6 - length ds) ''000000'')"
    by (simp only: take_append set_append Un_iff)
  then show "isdigit c"
  proof
    assume "c \<in> set (take 6 ds)"
    then show ?thesis using assms by simp
  next
    assume "c \<in> set (take (6 - length ds) ''000000'')"
    then have "c \<in> set ''000000''" by (rule in_set_takeD)
    then show ?thesis by (simp add: isdigit_def)
  qed
qed

lemma ts_micro_fraction:
  assumes "length p = 19" and "\<forall>c\<in>set (take 6 ds). isdigit c"
  shows "ts_micro (p @ CHR ''.'' # ds @ ''Z'') = (digits_value 0 (take 6 (ds @ ''000000'')), False)"
proof (cases ds)
  case Nil
  then show ?thesis using assms(1) by (simp add: ts_micro_def cstr_at_def nth_append)
next
  case (Cons d ds')
  let ?ts = "p @ CHR ''.'' # ds @ ''Z''"
  have d: "isdigit d" using assms(2) Cons by simp
  have a20: "cstr_at ?ts 20 = d" using assms(1) Cons by (simp add: cstr_at_def nth_append)
  have a19: "cstr_at ?ts 19 = CHR ''.''" using assms(1) by (simp add: cstr_at_def nth_append)
  have len: "(length ?ts - 1) - 20 = length ds" using assms(1) by simp
  have dr: "drop 20 ?ts = ds @ ''Z''" using assms(1) by simp
  let ?m = "take 6 (ds @ ''000000'')"
  have dig: "\<forall>c\<in>set ?m. isdigit c" by (rule take6_digits[OF assms(2)])
  have ne: "?m \<noteq> []" using Cons by simp
  have "length ?m \<le> 6" by simp
  moreover have "digits_value 0 ?m < 10 ^ length ?m" by (rule digits_value_bound[OF dig])
  moreover have "(10::nat) ^ length ?m \<le> 10 ^ 6" using \<open>length ?m \<le> 6\<close> by (intro power_increasing) simp_all
  ultimately have b: "digits_value 0 ?m < 2 ^ 64" by simp
  have "ts_micro ?ts = strtoull ?m"
    using isdigit_not_sign[OF d]
    by (simp only: ts_micro_def a20 a19 len dr Let_def micro_buffer) simp
  then show ?thesis by (simp only: strtoull_digits[OF dig ne b])
qed

lemma micro_lt:
  assumes "\<forall>c\<in>set (take 6 ds). isdigit c"
  shows "digits_value 0 (take 6 (ds @ ''000000'')) < 1000000"
proof -
  let ?m = "take 6 (ds @ ''000000'')"
  have dig: "\<forall>c\<in>set ?m. isdigit c" by (rule take6_digits[OF assms])
  have "length ?m \<le> 6" by simp
  moreover have "digits_value 0 ?m < 10 ^ length ?m" by (rule digits_value_bound[OF dig])
  moreover have "(10::nat) ^ length ?m \<le> 10 ^ 6" using \<open>length ?m \<le> 6\<close> by (intro power_increasing) simp_all
  ultimately show ?thesis by simp
qed

lemma ts_fields_micro: "micro (fst (ts_fields ts)) = fst (ts_micro ts)"
  by (simp add: ts_fields_def Let_def case_prod_beta)

lemma timestamp_epoch_Inr:
  "timestamp_epoch leap ts = Some (Inr e) \<Longrightarrow>
     ts_supported ts \<and> \<not> snd (ts_fields ts) \<and> ts_range ts (fst (ts_fields ts)) = None
     \<and> ts_epoch leap (fst (ts_fields ts)) = Some e"
  by (simp add: timestamp_epoch_def case_prod_beta Let_def split: if_splits option.splits)

lemma ts_seconds_lt: "ts_seconds leap t < 2 ^ 32"
  by (simp add: ts_seconds_def Let_def)

lemma timestamp_epoch_value:
  assumes "timestamp_epoch leap ts = Some (Inr e)"
  shows "e = (ts_seconds leap (fst (ts_fields ts)) * 1000000 + fst (ts_micro ts)) mod 2 ^ 64"
proof -
  have "ts_epoch leap (fst (ts_fields ts)) = Some e"
    using timestamp_epoch_Inr[OF assms] by simp
  then show ?thesis
    by (simp add: ts_epoch_def ts_fields_micro split: if_splits)
qed

lemma take6_short:
  "length ds \<le> 6 \<Longrightarrow> take 6 (ds @ ''000000'') = ds @ replicate (6 - length ds) (CHR ''0'')"
  unfolding zeros6 by (simp add: min_def)

lemma digits_value_zeros:
  "digits_value acc (replicate k (CHR ''0'')) = acc * 10 ^ k"
  by (induction k arbitrary: acc) simp_all

lemma digits_value_append:
  "digits_value 0 (xs @ ys) = digits_value 0 xs * 10 ^ length ys + digits_value 0 ys"
proof -
  have "\<And>acc. digits_value acc (xs @ ys) = digits_value (digits_value acc xs) ys"
    by (induction xs) simp_all
  then show ?thesis by (simp add: digits_value_acc[of "digits_value 0 xs"])
qed

lemma mod256_step: "(a div 256) mod k * 256 + a mod 256 = a mod (256 * k)" for a k :: nat
  by (simp add: mod_mult2_eq)

lemma be_decode_htobe64:
  assumes "e < 2 ^ 64"
  shows "be_decode 0 (htobe64 e) = e"
proof -
  define r1 where "r1 = e div 256"
  define r2 where "r2 = r1 div 256"
  define r3 where "r3 = r2 div 256"
  define r4 where "r4 = r3 div 256"
  define r5 where "r5 = r4 div 256"
  define r6 where "r6 = r5 div 256"
  define r7 where "r7 = r6 div 256"
  have d: "e div 65536 = r2" "e div 16777216 = r3" "e div 4294967296 = r4"
    "e div 1099511627776 = r5" "e div 281474976710656 = r6" "e div 72057594037927936 = r7"
    "e div 256 = r1"
    by (simp_all add: r1_def r2_def r3_def r4_def r5_def r6_def r7_def div_mult2_eq)
  have h1: "r7 mod 256 * 256 + r6 mod 256 = r6 mod 65536"
    using mod256_step[of r6 256] by (simp add: r7_def)
  have h2: "r6 mod 65536 * 256 + r5 mod 256 = r5 mod 16777216"
    using mod256_step[of r5 65536] by (simp add: r6_def)
  have h3: "r5 mod 16777216 * 256 + r4 mod 256 = r4 mod 4294967296"
    using mod256_step[of r4 16777216] by (simp add: r5_def)
  have h4: "r4 mod 4294967296 * 256 + r3 mod 256 = r3 mod 1099511627776"
    using mod256_step[of r3 4294967296] by (simp add: r4_def)
  have h5: "r3 mod 1099511627776 * 256 + r2 mod 256 = r2 mod 281474976710656"
    using mod256_step[of r2 1099511627776] by (simp add: r3_def)
  have h6: "r2 mod 281474976710656 * 256 + r1 mod 256 = r1 mod 72057594037927936"
    using mod256_step[of r1 281474976710656] by (simp add: r2_def)
  have h7: "r1 mod 72057594037927936 * 256 + e mod 256 = e mod 18446744073709551616"
    using mod256_step[of e 72057594037927936] by (simp add: r1_def)
  have "be_decode 0 (htobe64 e) =
      ((((((r7 mod 256 * 256 + r6 mod 256) * 256 + r5 mod 256) * 256 + r4 mod 256) * 256
          + r3 mod 256) * 256 + r2 mod 256) * 256 + r1 mod 256) * 256 + e mod 256"
    by (simp add: htobe64_def d)
  also have "\<dots> = e mod 18446744073709551616"
    by (simp only: h1 h2 h3 h4 h5 h6 h7)
  finally show ?thesis using assms by simp
qed

lemma ts_2000: "timestamp_epoch leapyear ''2000-01-01T00:00:00Z'' = Some (Inr 0)"
  by (simp add: ts_eval leapyear_length leapyear_0)

lemma ts_frac9: "timestamp_epoch leapyear ''2000-01-01T00:00:00.123456789Z'' = Some (Inr 123456)"
  by (simp add: ts_eval leapyear_length leapyear_0)

lemma ts_frac1: "timestamp_epoch leapyear ''2000-01-01T00:00:00.1Z'' = Some (Inr 100000)"
  by (simp add: ts_eval leapyear_length leapyear_0)

lemma ts_day0: "timestamp_epoch leapyear ''2000-01-00T00:00:00Z'' = Some (Inr 4294880896000000)"
  by (simp add: ts_eval leapyear_length leapyear_0)

lemma ts_apr31: "timestamp_epoch leapyear ''2000-04-31T00:00:00Z'' = Some (Inr 10454400000000)"
  by (simp add: ts_eval leapyear_length leapyear_0)

lemma leap_fill_nth:
  "k < n \<Longrightarrow> a + Suc k < 2 ^ 32 \<Longrightarrow>
   leap_fill i n a ! k
     = a + length (filter (\<lambda>i. (i mod 4 = 0 \<and> i mod 100 \<noteq> 0) \<or> i mod 400 = 0) [i..<i + Suc k])"
proof (induction n arbitrary: i a k)
  case 0 then show ?case by simp
next
  case (Suc n)
  let ?L = "\<lambda>i::nat. (i mod 4 = 0 \<and> i mod 100 \<noteq> 0) \<or> i mod 400 = 0"
  show ?case
  proof (cases k)
    case 0
    then show ?thesis using Suc.prems by (simp add: Let_def)
  next
    case (Suc j)
    have u: "[i..<i + Suc (Suc j)] = i # [Suc i..<Suc i + Suc j]"
      by (subst upt_conv_Cons) simp_all
    have jn: "j < n" using Suc Suc.prems by simp
    show ?thesis
    proof (cases "?L i")
      case True
      have b: "(a + 1) + Suc j < 2 ^ 32" using Suc Suc.prems by simp
      have m: "(a + 1) mod 2 ^ 32 = a + 1" using b by simp
      have "leap_fill i (Suc n) a ! k = leap_fill (Suc i) n (a + 1) ! j"
        using True m Suc by (simp add: Let_def)
      also have "\<dots> = (a + 1) + length (filter ?L [Suc i..<Suc i + Suc j])"
        by (rule Suc.IH[OF jn b])
      finally show ?thesis using True Suc by (simp only: u) simp
    next
      case False
      have b: "a + Suc j < 2 ^ 32" using Suc Suc.prems by simp
      have "leap_fill i (Suc n) a ! k = leap_fill (Suc i) n a ! j"
        using False Suc by (auto simp add: Let_def)
      also have "\<dots> = a + length (filter ?L [Suc i..<Suc i + Suc j])"
        by (rule Suc.IH[OF jn b])
      finally show ?thesis using False Suc by (simp only: u) simp
    qed
  qed
qed

lemma leapyear_nth:
  "y < 2048 \<Longrightarrow>
   leapyear ! y = length (filter (\<lambda>i. (i mod 4 = 0 \<and> i mod 100 \<noteq> 0) \<or> i mod 400 = 0) [0..<y])"
  by (cases y) (simp_all add: leapyear_def leap_fill_nth)

lemma leapyear_137: "leapyear ! 137 = 34"
  by (simp add: leapyear_nth upt_conv_Cons)

lemma ts_2137: "timestamp_epoch leapyear ''2137-01-01T00:00:00Z'' = Some (Inr 28402304000000)"
  by (simp add: ts_eval leapyear_length leapyear_137)

subsection \<open>The fraction of a second\<close>

lemma ts_micro_no_dot: "cstr_at ts 19 = CHR ''Z'' \<Longrightarrow> ts_micro ts = (0, False)"
  by (simp add: ts_micro_def)

lemma json_to_pqtimestamp_true:
  assumes "json_to_pqtimestamp lib (Some v) current h = Some (True, cur, h', lg)"
  shows "\<exists>e. timestamp_epoch (leapyears current) (json_object_get_string lib v) = Some (Inr e)
           \<and> cur = current\<lparr>result := Some (Block (brk h)), length' := 8\<rparr>
           \<and> blocks h' (brk h) = Some (htobe64 e) \<and> lg = []"
  using assms
  by (auto simp add: json_to_pqtimestamp_def malloc_def Let_def split: option.splits sum.splits)

lemma timestamp_fraction_value:
  assumes "timestamp_epoch leap ts = Some (Inr e)"
  shows "be_decode 0 (htobe64 e) = e"
    and "cstr_at ts 19 = CHR ''Z'' \<Longrightarrow>
           e = ts_seconds leap (fst (ts_fields ts)) * 1000000"
    and "ts = p @ CHR ''.'' # ds @ ''Z'' \<Longrightarrow> length p = 19 \<Longrightarrow> \<forall>c\<in>set (take 6 ds). isdigit c \<Longrightarrow>
           e = ts_seconds leap (fst (ts_fields ts)) * 1000000
                 + digits_value 0 (take 6 (ds @ ''000000''))"
proof -
  let ?s = "ts_seconds leap (fst (ts_fields ts))"
  note v = timestamp_epoch_value[OF assms]
  have s: "?s < 2 ^ 32" by (rule ts_seconds_lt)
  have "e < 2 ^ 64" using v by simp
  then show "be_decode 0 (htobe64 e) = e" by (rule be_decode_htobe64)
  {
    assume "cstr_at ts 19 = CHR ''Z''"
    then have "fst (ts_micro ts) = 0" by (simp add: ts_micro_no_dot)
    moreover have "?s * 1000000 < 2 ^ 64" using s by simp
    ultimately show "e = ?s * 1000000" using v by simp
  }
  {
    assume a: "ts = p @ CHR ''.'' # ds @ ''Z''" "length p = 19" "\<forall>c\<in>set (take 6 ds). isdigit c"
    let ?m = "digits_value 0 (take 6 (ds @ ''000000''))"
    have mic: "fst (ts_micro ts) = ?m"
      unfolding a(1) by (simp add: ts_micro_fraction[OF a(2,3)])
    have m: "?m < 1000000" by (rule micro_lt[OF a(3)])
    have lt: "?s * 1000000 + ?m < 2 ^ 64" using m s by simp
    then show "e = ?s * 1000000 + ?m" using v mic by simp
  }
qed

lemma fraction_padded:
  "length ds \<le> 6 \<Longrightarrow>
     digits_value 0 (take 6 (ds @ ''000000'')) = digits_value 0 ds * 10 ^ (6 - length ds)"
proof -
  assume "length ds \<le> 6"
  then have "digits_value 0 (take 6 (ds @ ''000000''))
      = digits_value 0 (ds @ replicate (6 - length ds) (CHR ''0''))"
    by (simp only: take6_short)
  also have "\<dots> = digits_value 0 ds * 10 ^ (6 - length ds)"
    by (simp only: digits_value_append digits_value_zeros) simp
  finally show ?thesis .
qed

lemma ts_frac6: "timestamp_epoch leapyear ''2000-01-01T00:00:00.000001Z'' = Some (Inr 1)"
  by (simp add: ts_eval leapyear_length leapyear_0)

lemma ts_frac1x: "timestamp_epoch leapyear ''2000-01-01T00:00:00.1xZ'' = Some (Inr 1)"
  by (simp add: ts_eval leapyear_length leapyear_0)

lemma ts_frac1sp: "timestamp_epoch leapyear ''2000-01-01T00:00:00.1 Z'' = Some (Inr 1)"
  by (simp add: ts_eval leapyear_length leapyear_0)

lemma pq_timestamp_eval:
  "timestamp_epoch leapyear ts = Some (Inr e) \<Longrightarrow>
     json_to_pqtimestamp (lib_t ts) (Some ts) (timestamp_store_needle jp) empty_heap
       = Some (True, (timestamp_store_needle jp)\<lparr>result := Some (Block 0), length' := 8\<rparr>,
               \<lparr>blocks = (\<lambda>a. None)(0 \<mapsto> htobe64 e), brk = 1\<rparr>, [])"
  by (simp add: json_to_pqtimestamp_def lib_t_def jsonc_table_def malloc_def empty_heap_def
      timestamp_store_needle_def)

text \<open>
  Claim C5, as amended. When the formatter accepts the string, it stores the eight
  big-endian bytes of a value \<open>e\<close>, and the microseconds of \<open>e\<close> are as follows. With no
  dot after the seconds they are 0. With a dot followed by the bytes \<open>ds\<close> and the final Z,
  where the first six bytes of \<open>ds\<close> (all of them when \<open>ds\<close> has fewer) are decimal digits,
  they are the first six digits of \<open>ds\<close>: what follows the sixth is dropped, not rounded,
  and fewer than six digits are followed by zeros.
\<close>

theorem timestamp_fraction_truncated:
  assumes "json_to_pqtimestamp lib (Some v) current h = Some (True, cur, h', lg)"
    and "ts = json_object_get_string lib v"
  shows "\<exists>a e. result cur = Some (Block a) \<and> length' cur = 8
      \<and> blocks h' a = Some (htobe64 e)
      \<and> be_decode 0 (htobe64 e) = e
      \<and> timestamp_epoch (leapyears current) ts = Some (Inr e)
      \<and> (cstr_at ts 19 = CHR ''Z'' \<longrightarrow>
            e div 1000000 = ts_seconds (leapyears current) (fst (ts_fields ts))
          \<and> e mod 1000000 = 0)
      \<and> (\<forall>p ds. ts = p @ CHR ''.'' # ds @ ''Z'' \<and> length p = 19
                 \<and> (\<forall>c\<in>set (take 6 ds). isdigit c) \<longrightarrow>
            e div 1000000 = ts_seconds (leapyears current) (fst (ts_fields ts))
          \<and> e mod 1000000 = digits_value 0 (take 6 (ds @ ''000000''))
          \<and> (length ds \<le> 6 \<longrightarrow> e mod 1000000 = digits_value 0 ds * 10 ^ (6 - length ds))
          \<and> (6 \<le> length ds \<longrightarrow> e mod 1000000 = digits_value 0 (take 6 ds)))"
proof -
  let ?s = "ts_seconds (leapyears current) (fst (ts_fields ts))"
  from json_to_pqtimestamp_true[OF assms(1)] assms(2) obtain e where
    te: "timestamp_epoch (leapyears current) ts = Some (Inr e)"
    and cur: "cur = current\<lparr>result := Some (Block (brk h)), length' := 8\<rparr>"
    and blk: "blocks h' (brk h) = Some (htobe64 e)"
    by blast
  note fv = timestamp_fraction_value[OF te]
  have nodot: "cstr_at ts 19 = CHR ''Z'' \<longrightarrow> e div 1000000 = ?s \<and> e mod 1000000 = 0"
    using fv(2) by simp
  have dot: "\<forall>p ds. ts = p @ CHR ''.'' # ds @ ''Z'' \<and> length p = 19
                 \<and> (\<forall>c\<in>set (take 6 ds). isdigit c) \<longrightarrow>
            e div 1000000 = ?s
          \<and> e mod 1000000 = digits_value 0 (take 6 (ds @ ''000000''))
          \<and> (length ds \<le> 6 \<longrightarrow> e mod 1000000 = digits_value 0 ds * 10 ^ (6 - length ds))
          \<and> (6 \<le> length ds \<longrightarrow> e mod 1000000 = digits_value 0 (take 6 ds))"
  proof (intro allI impI, elim conjE)
    fix p ds
    assume a: "ts = p @ CHR ''.'' # ds @ ''Z''" "length p = 19" "\<forall>c\<in>set (take 6 ds). isdigit c"
    let ?m = "digits_value 0 (take 6 (ds @ ''000000''))"
    have e: "e = ?s * 1000000 + ?m" by (rule fv(3)[OF a])
    have m: "?m < 1000000" by (rule micro_lt[OF a(3)])
    have 1: "e mod 1000000 = ?m" using e m by simp
    have 2: "e div 1000000 = ?s" using e m by simp
    have 3: "length ds \<le> 6 \<longrightarrow> ?m = digits_value 0 ds * 10 ^ (6 - length ds)"
      using fraction_padded by blast
    have 4: "6 \<le> length ds \<longrightarrow> ?m = digits_value 0 (take 6 ds)" by simp
    show "e div 1000000 = ?s
          \<and> e mod 1000000 = ?m
          \<and> (length ds \<le> 6 \<longrightarrow> e mod 1000000 = digits_value 0 ds * 10 ^ (6 - length ds))
          \<and> (6 \<le> length ds \<longrightarrow> e mod 1000000 = digits_value 0 (take 6 ds))"
      using 1 2 3 4 by simp
  qed
  have "result cur = Some (Block (brk h)) \<and> length' cur = 8
      \<and> blocks h' (brk h) = Some (htobe64 e)
      \<and> be_decode 0 (htobe64 e) = e
      \<and> timestamp_epoch (leapyears current) ts = Some (Inr e)"
    using cur blk fv(1) te by simp
  then show ?thesis using nodot dot by (intro exI[of _ "brk h"] exI[of _ e]) (simp only: simp_thms)
qed

theorem timestamp_fraction_truncated_witness:
  "json_to_pqtimestamp (lib_t ''2000-01-01T00:00:00.123456789Z'')
       (Some ''2000-01-01T00:00:00.123456789Z'') (timestamp_store_needle ''/t'') empty_heap
     = Some (True, (timestamp_store_needle ''/t'')\<lparr>result := Some (Block 0), length' := 8\<rparr>,
             \<lparr>blocks = (\<lambda>a. None)(0 \<mapsto> htobe64 123456), brk = 1\<rparr>, [])
   \<and> be_decode 0 (htobe64 123456) = 123456
   \<and> 123456 mod 1000000 = digits_value 0 (take 6 ''123456789'')
   \<and> json_to_pqtimestamp (lib_t ''2000-01-01T00:00:00.1Z'')
       (Some ''2000-01-01T00:00:00.1Z'') (timestamp_store_needle ''/t'') empty_heap
     = Some (True, (timestamp_store_needle ''/t'')\<lparr>result := Some (Block 0), length' := 8\<rparr>,
             \<lparr>blocks = (\<lambda>a. None)(0 \<mapsto> htobe64 100000), brk = 1\<rparr>, [])
   \<and> be_decode 0 (htobe64 100000) = 100000
   \<and> 100000 mod 1000000 = digits_value 0 ''1'' * 10 ^ (6 - length ''1'')
   \<and> json_to_pqtimestamp (lib_t ''2000-01-01T00:00:00Z'')
       (Some ''2000-01-01T00:00:00Z'') (timestamp_store_needle ''/t'') empty_heap
     = Some (True, (timestamp_store_needle ''/t'')\<lparr>result := Some (Block 0), length' := 8\<rparr>,
             \<lparr>blocks = (\<lambda>a. None)(0 \<mapsto> htobe64 0), brk = 1\<rparr>, [])
   \<and> be_decode 0 (htobe64 0) = 0"
proof -
  let ?n = "timestamp_store_needle ''/t''"
  have gs: "\<And>ts v. json_object_get_string (lib_t ts) v = v"
    by (simp add: lib_t_def jsonc_table_def)
  have ly: "leapyears ?n = leapyear" by (simp add: timestamp_store_needle_def)
  note p9 = pq_timestamp_eval[OF ts_frac9, of "''/t''"]
  note p1 = pq_timestamp_eval[OF ts_frac1, of "''/t''"]
  note p0 = pq_timestamp_eval[OF ts_2000, of "''/t''"]
  have d9: "\<forall>c\<in>set (take 6 ''123456789''). isdigit c" by (simp add: isdigit_def)
  have d1: "\<forall>c\<in>set (take 6 ''1''). isdigit c" by (simp add: isdigit_def)
  from timestamp_fraction_truncated[OF p9 refl] obtain e where
    e9: "timestamp_epoch leapyear ''2000-01-01T00:00:00.123456789Z'' = Some (Inr e)"
    and b9: "be_decode 0 (htobe64 e) = e"
    and f9: "\<forall>p ds. ''2000-01-01T00:00:00.123456789Z'' = p @ CHR ''.'' # ds @ ''Z'' \<and> length p = 19
                 \<and> (\<forall>c\<in>set (take 6 ds). isdigit c) \<longrightarrow>
               e div 1000000 = ts_seconds leapyear (fst (ts_fields ''2000-01-01T00:00:00.123456789Z''))
             \<and> e mod 1000000 = digits_value 0 (take 6 (ds @ ''000000''))
             \<and> (length ds \<le> 6 \<longrightarrow> e mod 1000000 = digits_value 0 ds * 10 ^ (6 - length ds))
             \<and> (6 \<le> length ds \<longrightarrow> e mod 1000000 = digits_value 0 (take 6 ds))"
    unfolding gs ly by (elim exE conjE) (rule that; assumption)
  have v9: "e = 123456" using e9 ts_frac9 by simp
  have r9: "123456 mod 1000000 = digits_value 0 (take 6 ''123456789'')"
    using f9[rule_format, of "''2000-01-01T00:00:00''" "''123456789''"] d9 unfolding v9 by simp
  from timestamp_fraction_truncated[OF p1 refl] obtain e1 where
    e1: "timestamp_epoch leapyear ''2000-01-01T00:00:00.1Z'' = Some (Inr e1)"
    and b1: "be_decode 0 (htobe64 e1) = e1"
    and f1: "\<forall>p ds. ''2000-01-01T00:00:00.1Z'' = p @ CHR ''.'' # ds @ ''Z'' \<and> length p = 19
                 \<and> (\<forall>c\<in>set (take 6 ds). isdigit c) \<longrightarrow>
               e1 div 1000000 = ts_seconds leapyear (fst (ts_fields ''2000-01-01T00:00:00.1Z''))
             \<and> e1 mod 1000000 = digits_value 0 (take 6 (ds @ ''000000''))
             \<and> (length ds \<le> 6 \<longrightarrow> e1 mod 1000000 = digits_value 0 ds * 10 ^ (6 - length ds))
             \<and> (6 \<le> length ds \<longrightarrow> e1 mod 1000000 = digits_value 0 (take 6 ds))"
    unfolding gs ly by (elim exE conjE) (rule that; assumption)
  have v1: "e1 = 100000" using e1 ts_frac1 by simp
  have r1: "100000 mod 1000000 = digits_value 0 ''1'' * 10 ^ (6 - length ''1'')"
    using f1[rule_format, of "''2000-01-01T00:00:00''" "''1''"] d1 unfolding v1 by simp
  from timestamp_fraction_truncated[OF p0 refl] obtain e0 where
    e0: "timestamp_epoch leapyear ''2000-01-01T00:00:00Z'' = Some (Inr e0)"
    and b0: "be_decode 0 (htobe64 e0) = e0"
    and f0: "cstr_at ''2000-01-01T00:00:00Z'' 19 = CHR ''Z'' \<longrightarrow>
               e0 div 1000000 = ts_seconds leapyear (fst (ts_fields ''2000-01-01T00:00:00Z''))
             \<and> e0 mod 1000000 = 0"
    unfolding gs ly by (elim exE conjE) (rule that; assumption)
  have v0: "e0 = 0" using e0 ts_2000 by simp
  show ?thesis
    using p9 p1 p0 b9[unfolded v9] b1[unfolded v1] b0[unfolded v0] r9 r1
    by (intro conjI)
qed

text \<open>
  Claim C5 as stated fails on an accepted string whose fraction holds a byte that is not
  a digit: the formatter never looks at the bytes it copies, and \<open>strtoull\<close> stops at the
  first byte that is not a digit. \<open>2000-01-01T00:00:00.1xZ\<close> is accepted; its one fractional
  digit gives 1 microsecond, where the claim has 100000.
\<close>

theorem timestamp_fraction_truncated_counterexample:
  "json_to_pqtimestamp (lib_t ''2000-01-01T00:00:00.1xZ'')
       (Some ''2000-01-01T00:00:00.1xZ'') (timestamp_store_needle ''/t'') empty_heap
     = Some (True, (timestamp_store_needle ''/t'')\<lparr>result := Some (Block 0), length' := 8\<rparr>,
             \<lparr>blocks = (\<lambda>a. None)(0 \<mapsto> htobe64 1), brk = 1\<rparr>, [])
   \<and> be_decode 0 (htobe64 1) = 1
   \<and> digits_value 0 ''1'' * 10 ^ (6 - length ''1'') = 100000"
proof -
  have "be_decode 0 (htobe64 1) = 1" by (rule be_decode_htobe64) simp
  moreover have "digits_value 0 ''1'' * 10 ^ (6 - length ''1'') = 100000" by simp
  ultimately show ?thesis using pq_timestamp_eval[OF ts_frac1x, of "''/t''"] by (intro conjI)
qed

subsection \<open>Concrete scenarios\<close>

lemmas cfg_eval = h_jsonexport_init_def config_setting_get_member_def config_setting_elems_def
  config_setting_length_def needle_of_def elem_string_def config_setting_get_elem_def
  config_setting_get_string_def config_setting_is_array_def pqtype_enum_def actiontype_enum_def
  filtertype_enum_def config_of_def entry5_def new_entry_def

lemmas hook_eval = h_jsonexport_def copy_internal_def deref_needle_def call_filter_def
  call_action_def call_format_def json_to_pqtext_def json_to_pqtimestamp_def malloc_def
  free_internal_def call_free_def obj_free_def obj_noop_def libc_free_def memcpy_from_def
  serialize_needle_def metadata_insert_def filter_noop_fn_def filter_match_fn_def
  filter_exists_fn_def filter_substr_fn_def action_store_fn_def action_store_true_fn_def
  action_discard_false_fn_def action_discard_true_fn_def action_store_meta_fn_def
  jsonc_table_def message_of_def empty_heap_def

lemma Suc_Suc_0: "Suc (Suc 0) = 2"
  by simp

lemmas bytes_eval = htons_def htobe32_def htobe64_def char_of_eq_iff Suc_Suc_0

lemma row_timestamp_minimum:
  "map_option
     (\<lambda>ctx. h_jsonexport
        (jsonc_table ''{\"t\":\"2000-01-01T00:00:00Z\"}'' ''{ \"t\": \"2000-01-01T00:00:00Z\" }''
           [(''/t'', Some ''2000-01-01T00:00:00Z'')])
        ctx (message_of ''{\"t\":\"2000-01-01T00:00:00Z\"}'') empty_heap)
     (h_jsonexport_init (config_of [entry5 ''/t'' ''timestamp'' ''store'' ''noop'' []]))
   = Some (Some (True,
        \<lparr>data = [CHR 0x00, CHR 0x01, CHR 0x00, CHR 0x00, CHR 0x00, CHR 0x08,
                 CHR 0x00, CHR 0x00, CHR 0x00, CHR 0x00, CHR 0x00, CHR 0x00, CHR 0x00, CHR 0x00],
         len = 14, mdata = (\<lambda>k. None)\<rparr>,
        \<lparr>blocks = (\<lambda>a. None), brk = 1\<rparr>, []))"
  by (simp add: cfg_eval hook_eval ts_2000 bytes_eval)

lemma row_timestamp_fraction:
  "map_option
     (\<lambda>ctx. h_jsonexport (lib_t ''2000-01-01T00:00:00.123456789Z'') ctx
        (message_of ''{\"t\":\"2000-01-01T00:00:00.123456789Z\"}'') empty_heap)
     (h_jsonexport_init (config_of [entry5 ''/t'' ''timestamp'' ''store'' ''noop'' []]))
   = Some (Some (True,
        \<lparr>data = [CHR 0x00, CHR 0x01, CHR 0x00, CHR 0x00, CHR 0x00, CHR 0x08,
                 CHR 0x00, CHR 0x00, CHR 0x00, CHR 0x00, CHR 0x00, CHR 0x01, CHR 0xE2, CHR 0x40],
         len = 14, mdata = (\<lambda>k. None)\<rparr>,
        \<lparr>blocks = (\<lambda>a. None), brk = 1\<rparr>, []))"
  by (simp add: cfg_eval hook_eval lib_t_def ts_frac9 bytes_eval)

lemma decode_123456:
  "be_decode 0 [CHR 0x00, CHR 0x00, CHR 0x00, CHR 0x00, CHR 0x00, CHR 0x01, CHR 0xE2, CHR 0x40]
     = 123456"
  by simp

lemma row_missing_pointer:
  "map_option
     (\<lambda>ctx. h_jsonexport
        (jsonc_table ''{\"a\":\"x\"}'' ''{ \"a\": \"x\" }'' [(''/a'', Some ''x'')])
        ctx (message_of ''{\"a\":\"x\"}'') empty_heap)
     (h_jsonexport_init (config_of [entry5 ''/a'' ''text'' ''store'' ''noop'' [],
                                    entry5 ''/b'' ''text'' ''store'' ''noop'' []]))
   = Some (Some (True,
        \<lparr>data = [CHR 0x00, CHR 0x02, CHR 0x00, CHR 0x00, CHR 0x00, CHR 0x01, CHR ''x'',
                 CHR 0xFF, CHR 0xFF, CHR 0xFF, CHR 0xFF],
         len = 11, mdata = (\<lambda>k. None)\<rparr>,
        empty_heap, []))"
  by (simp add: cfg_eval hook_eval bytes_eval)

lemma null_value_crash:
  "map_option
     (\<lambda>ctx. h_jsonexport
        (jsonc_table ''{\"a\":null}'' ''{ \"a\": null }'' [(''/a'', None)])
        ctx (message_of ''{\"a\":null}'') empty_heap)
     (h_jsonexport_init (config_of [entry5 ''/a'' ''text'' ''store'' ''noop'' []]))
   = Some None"
  by (simp add: cfg_eval hook_eval bytes_eval)

lemma timestamp_meta_crash:
  "map_option
     (\<lambda>ctx. h_jsonexport
        (jsonc_table ''{\"t\":\"2000-01-01T00:00:00Z\"}'' ''{ \"t\": \"2000-01-01T00:00:00Z\" }''
           [(''/t'', Some ''2000-01-01T00:00:00Z'')])
        ctx (message_of ''{\"t\":\"2000-01-01T00:00:00Z\"}'') empty_heap)
     (h_jsonexport_init (config_of [entry5 ''/t'' ''timestamp'' ''store_meta'' ''noop'' []]))
   = Some None"
  by (simp add: cfg_eval hook_eval ts_2000 bytes_eval)

lemma text_meta_ok:
  "map_option
     (\<lambda>ctx. h_jsonexport
        (jsonc_table ''{\"a\":\"x\"}'' ''{ \"a\": \"x\" }'' [(''/a'', Some ''x'')])
        ctx (message_of ''{\"a\":\"x\"}'') empty_heap)
     (h_jsonexport_init (config_of [entry5 ''/a'' ''text'' ''store_meta'' ''noop'' []]))
   = Some (Some (True,
        \<lparr>data = [CHR 0x00, CHR 0x01, CHR 0x00, CHR 0x00, CHR 0x00, CHR 0x01, CHR ''x''],
         len = 7,
         mdata = (\<lambda>k. None)(''jpointer'' \<mapsto> \<lparr>mtype = MTYPE_STRING, mvalue = [CHR ''x'', CHR 0x00], mlen = 2\<rparr>)\<rparr>,
        empty_heap, []))"
  by (simp add: cfg_eval hook_eval bytes_eval)

lemma discard_false_drop:
  "map_option
     (\<lambda>ctx. h_jsonexport
        (jsonc_table ''{\"k\":\"no\"}'' ''{ \"k\": \"no\" }'' [(''/k'', Some ''no'')])
        ctx (message_of ''{\"k\":\"no\"}'') empty_heap)
     (h_jsonexport_init (config_of [entry5 ''/k'' ''text'' ''discard_false'' ''match'' ''yes'']))
   = Some (Some (False, message_of ''{\"k\":\"no\"}'', empty_heap, []))"
  by (simp add: cfg_eval hook_eval bytes_eval)

subsection \<open>Disposing twice\<close>

lemma obj_free_twice:
  "Option.bind (obj_free h obj) (\<lambda>(h1, obj1). obj_free h1 obj1) = obj_free h obj"
  by (simp add: obj_free_def split: option.splits)

lemma call_free_again:
  "call_free h n = Some (h1, n1) \<Longrightarrow> call_free h2 n1 = Some (h2, n1)"
  by (auto simp: call_free_def obj_free_def obj_noop_def split: option.splits free_fn.splits)

lemma free_results_again:
  "free_results h ns = Some (h1, ns1) \<Longrightarrow> free_results h2 ns1 = Some (h2, ns1)"
proof (induction ns arbitrary: h h1 ns1 h2)
  case Nil
  then show ?case by simp
next
  case (Cons n ns)
  from Cons.prems obtain ha na hb nsb where
    a: "call_free h n = Some (ha, na)" and b: "free_results ha ns = Some (hb, nsb)"
    and c: "h1 = hb" "ns1 = na # nsb"
    by (auto split: option.splits)
  show ?case
    using call_free_again[OF a, of h2] Cons.IH[OF b, of h2] c by simp
qed

lemma call_free_twice:
  "Option.bind (call_free h n) (\<lambda>(h1, n1). call_free h1 n1) = call_free h n"
proof (cases "call_free h n")
  case None
  then show ?thesis by simp
next
  case (Some r)
  obtain h1 n1 where r: "r = (h1, n1)" by (cases r)
  show ?thesis using Some call_free_again[of h n h1 n1 h1] by (simp add: r)
qed

lemma free_results_twice:
  "Option.bind (free_results h ns) (\<lambda>(h1, ns1). free_results h1 ns1) = free_results h ns"
proof (cases "free_results h ns")
  case None
  then show ?thesis by simp
next
  case (Some r)
  obtain h1 ns1 where r: "r = (h1, ns1)" by (cases r)
  show ?thesis using Some free_results_again[of h ns h1 ns1 h1] by (simp add: r)
qed

text \<open>
  Claim C10. The disposer of the timestamp type is idempotent: applying it twice is
  applying it once. Applied to a slot that holds a live block it releases the block and
  leaves NULL in the slot; applied to a slot that holds NULL it changes nothing. The same
  holds for the call through a needle's function pointer and for the loop over all
  slots, which the hook runs after the serializer has disposed the stored slots.
\<close>

theorem obj_free_idempotent:
  "Option.bind (obj_free h obj) (\<lambda>(h1, obj1). obj_free h1 obj1) = obj_free h obj
   \<and> obj_free h (Some None) = Some (h, Some None)
   \<and> obj_free h None = Some (h, None)
   \<and> obj_free h (Some (Some (Block a)))
       = (if blocks h a = None then None
          else Some (h\<lparr>blocks := (blocks h)(a := None)\<rparr>, Some None))
   \<and> Option.bind (call_free h n) (\<lambda>(h1, n1). call_free h1 n1) = call_free h n
   \<and> Option.bind (free_results h ns) (\<lambda>(h1, ns1). free_results h1 ns1) = free_results h ns"
  using obj_free_twice[of h obj] call_free_twice[of h n] free_results_twice[of h ns]
  by (simp add: obj_free_def libc_free_def)

subsection \<open>The evaluator keeps what the compiler fixed\<close>

lemma call_action_static:
  "call_action fr found n = Some (k, n1) \<Longrightarrow>
     store n1 = store n \<and> jpointer n1 = jpointer n \<and> free n1 = free n \<and> format n1 = format n
     \<and> result n1 = result n \<and> length' n1 = length' n"
  by (auto simp: call_action_def action_store_fn_def action_store_true_fn_def
      action_discard_false_fn_def action_discard_true_fn_def action_store_meta_fn_def
      split: option.splits action_fn.splits if_splits)

lemma call_format_static:
  "call_format lib found n h = Some (ok, n2, h2, lg) \<Longrightarrow>
     store n2 = store n \<and> jpointer n2 = jpointer n \<and> free n2 = free n"
  by (auto simp: call_format_def json_to_pqtext_def json_to_pqtimestamp_def malloc_def Let_def
      split: option.splits format_fn.splits sum.splits)

lemma deref_needle_cases:
  assumes "deref_needle lib hay h n = Some (r, n', h', lg)"
  obtains (dropped) fr n1 where
      "call_action fr (snd (json_pointer_get lib hay (jpointer n))) n = Some (False, n1)"
      "r = 1" "n' = n1" "h' = h" "lg = []"
  | (unresolved) fr n1 where
      "call_action fr (snd (json_pointer_get lib hay (jpointer n))) n = Some (True, n1)"
      "fst (json_pointer_get lib hay (jpointer n)) \<noteq> 0"
      "r = 0" "n' = n1\<lparr>result := None, length' := 2 ^ 32 - 1\<rparr>" "h' = h" "lg = []"
  | (formatted) fr n1 ok lg1 where
      "call_action fr (snd (json_pointer_get lib hay (jpointer n))) n = Some (True, n1)"
      "fst (json_pointer_get lib hay (jpointer n)) = 0"
      "call_format lib (snd (json_pointer_get lib hay (jpointer n))) n1 h = Some (ok, n', h', lg1)"
      "r = (if ok then 0 else - 1)"
proof -
  obtain ret found where pg: "json_pointer_get lib hay (jpointer n) = (ret, found)"
    by (cases "json_pointer_get lib hay (jpointer n)")
  from assms obtain fr where f: "call_filter lib (ret = 0) found n = Some fr"
    by (auto simp: deref_needle_def pg split: option.splits)
  from assms f obtain keep n1 where a: "call_action fr found n = Some (keep, n1)"
    by (auto simp: deref_needle_def pg split: option.splits)
  show thesis
  proof (cases keep)
    case False
    have "r = 1 \<and> n' = n1 \<and> h' = h \<and> lg = []"
      using assms f a False by (simp add: deref_needle_def pg)
    then show ?thesis using a False by (intro dropped[of fr n1]) (simp_all add: pg)
  next
    case True
    show ?thesis
    proof (cases "ret = 0")
      case False
      have "r = 0 \<and> n' = n1\<lparr>result := None, length' := 2 ^ 32 - 1\<rparr> \<and> h' = h \<and> lg = []"
        using assms f a True False by (simp add: deref_needle_def pg)
      then show ?thesis using a True False by (intro unresolved[of fr n1]) (simp_all add: pg)
    next
      case z: True
      from assms f a True z obtain ok n2 h2 lg1 where
        c: "call_format lib found n1 h = Some (ok, n2, h2, lg1)"
        by (auto simp: deref_needle_def pg split: option.splits)
      have "n' = n2 \<and> h' = h2 \<and> r = (if ok then 0 else - 1)"
        using assms f a True z c by (auto simp: deref_needle_def pg split: if_splits)
      then show ?thesis using a True z c by (intro formatted[of fr n1 ok lg1]) (simp_all add: pg)
    qed
  qed
qed

lemma deref_needle_static:
  assumes "deref_needle lib hay h n = Some (r, n', h', lg)"
  shows "store n' = store n \<and> jpointer n' = jpointer n \<and> free n' = free n"
  using assms
proof (cases rule: deref_needle_cases)
  case (dropped fr n1)
  then show ?thesis using call_action_static[OF dropped(1)] by simp
next
  case (unresolved fr n1)
  then show ?thesis using call_action_static[OF unresolved(1)] by simp
next
  case (formatted fr n1 ok lg1)
  then show ?thesis
    using call_action_static[OF formatted(1)] call_format_static[OF formatted(3)]
    by simp
qed

lemma deref_needle_unresolved:
  assumes "deref_needle lib hay h n = Some (0, n', h', lg)"
    and "fst (json_pointer_get lib hay (jpointer n)) \<noteq> 0"
  shows "result n' = None \<and> length' n' = 2 ^ 32 - 1"
  using assms(1)
proof (cases rule: deref_needle_cases)
  case (dropped fr n1)
  then show ?thesis by simp
next
  case (unresolved fr n1)
  then show ?thesis by simp
next
  case (formatted fr n1 ok lg1)
  then show ?thesis using assms(2) by simp
qed

lemma deref_Cons_ok:
  assumes "deref lib hay h (n # ns) = Some (0, slots, h1, lg)"
  obtains n' ha lga ns' lgb where
    "deref_needle lib hay h n = Some (0, n', ha, lga)"
    "deref lib hay ha ns = Some (0, ns', h1, lgb)"
    "slots = n' # ns'" "lg = lga @ lgb"
  using assms by (auto split: option.splits if_splits)

lemma deref_static:
  "deref lib hay h ns = Some (r, slots, h1, lg) \<Longrightarrow>
     length slots = length ns \<and> map store slots = map store ns
     \<and> map jpointer slots = map jpointer ns"
proof (induction ns arbitrary: h r slots h1 lg)
  case Nil
  then show ?case by simp
next
  case (Cons n ns)
  from Cons.prems obtain r0 n' ha lga where
    a: "deref_needle lib hay h n = Some (r0, n', ha, lga)"
    by (auto split: option.splits)
  note s = deref_needle_static[OF a]
  show ?case
  proof (cases "r0 = 0")
    case False
    then show ?thesis using Cons.prems a s by auto
  next
    case True
    from Cons.prems a True obtain r' ns' lgb where
      b: "deref lib hay ha ns = Some (r', ns', h1, lgb)" and c: "slots = n' # ns'"
      by (auto split: option.splits)
    show ?thesis using Cons.IH[OF b] c s by simp
  qed
qed

lemma deref_unresolved:
  "deref lib hay h ns = Some (0, slots, h1, lg) \<Longrightarrow> i < length ns \<Longrightarrow>
   fst (json_pointer_get lib hay (jpointer (ns ! i))) \<noteq> 0 \<Longrightarrow>
     result (slots ! i) = None \<and> length' (slots ! i) = 2 ^ 32 - 1"
proof (induction ns arbitrary: h slots lg i)
  case Nil
  then show ?case by simp
next
  case (Cons n ns)
  from Cons.prems(1) obtain n' ha lga ns' lgb where
    a: "deref_needle lib hay h n = Some (0, n', ha, lga)"
    and b: "deref lib hay ha ns = Some (0, ns', h1, lgb)"
    and c: "slots = n' # ns'"
    by (rule deref_Cons_ok)
  show ?case
  proof (cases i)
    case 0
    then show ?thesis using deref_needle_unresolved[OF a] Cons.prems(3) c by simp
  next
    case (Suc j)
    then show ?thesis using Cons.IH[OF b, of j] Cons.prems(2,3) c by simp
  qed
qed

subsection \<open>The row the serializer writes\<close>

lemma memcpy_from_mono:
  "memcpy_from h p k = Some bs \<Longrightarrow> (\<And>a x. blocks h a = Some x \<Longrightarrow> blocks H a = Some x) \<Longrightarrow>
     memcpy_from H p k = Some bs"
  by (cases p) (auto simp: memcpy_from_def split: option.splits if_splits)

lemma memcpy_from_length: "memcpy_from h p k = Some bs \<Longrightarrow> length bs = k"
  by (cases p) (auto simp: memcpy_from_def split: option.splits if_splits)

lemma call_free_shrinks:
  "call_free h n = Some (h', n') \<Longrightarrow> blocks h' a = Some x \<Longrightarrow> blocks h a = Some x"
  by (auto simp: call_free_def obj_free_def obj_noop_def libc_free_def
      split: option.splits free_fn.splits ptr.splits if_splits)

lemma serialize_needle_row:
  assumes "serialize_needle h n buf md = Some (buf2, n2, h2, md2)"
    and "\<And>a x. blocks h a = Some x \<Longrightarrow> blocks H a = Some x"
  shows "buf2 = buf @ field_record H n
       \<and> length (field_record H n) = 4 + (case result n of None \<Rightarrow> 0 | Some p \<Rightarrow> length' n)
       \<and> (\<forall>a x. blocks h2 a = Some x \<longrightarrow> blocks h a = Some x)"
proof (cases "result n")
  case None
  then show ?thesis using assms(1)
    by (auto simp: serialize_needle_def field_record_def htobe32_def Let_def
        split: option.splits if_splits)
next
  case (Some p)
  from assms(1) Some obtain bs where m: "memcpy_from h p (length' n) = Some bs"
    by (auto simp: serialize_needle_def Let_def split: option.splits)
  from assms(1) Some m obtain hf nf where f: "call_free h n = Some (hf, nf)"
    by (auto simp: serialize_needle_def Let_def split: option.splits)
  have r: "buf2 = buf @ htobe32 (length' n) @ bs \<and> h2 = hf"
    using assms(1) Some m f
    by (auto simp: serialize_needle_def Let_def split: option.splits if_splits)
  have M: "memcpy_from H p (length' n) = Some bs"
    using memcpy_from_mono[OF m] assms(2) by blast
  show ?thesis
    using r M Some memcpy_from_length[OF m] call_free_shrinks[OF f]
    by (auto simp: field_record_def htobe32_def)
qed

lemma serialize_row:
  "serialize h ns buf md = Some (b, ns', h', md') \<Longrightarrow>
   (\<And>a x. blocks h a = Some x \<Longrightarrow> blocks H a = Some x) \<Longrightarrow>
     b = buf @ concat (map (field_record H) (filter store ns))
     \<and> (\<forall>s\<in>set (filter store ns).
           length (field_record H s) = 4 + (case result s of None \<Rightarrow> 0 | Some p \<Rightarrow> length' s))"
proof (induction ns arbitrary: h buf md b ns' h' md')
  case Nil
  then show ?case by simp
next
  case (Cons n ns)
  show ?case
  proof (cases "store n")
    case False
    from Cons.prems(1) False obtain bb nsb hb mdb where
      r: "serialize h ns buf md = Some (bb, nsb, hb, mdb)" and e: "b = bb"
      by (auto split: option.splits)
    show ?thesis using Cons.IH[OF r Cons.prems(2)] e False by simp
  next
    case True
    from Cons.prems(1) True obtain buf2 n2 h2 md2 where
      a: "serialize_needle h n buf md = Some (buf2, n2, h2, md2)"
      by (auto split: option.splits)
    from Cons.prems(1) True a obtain bb nsb hb mdb where
      r: "serialize h2 ns buf2 md2 = Some (bb, nsb, hb, mdb)" and e: "b = bb"
      by (auto split: option.splits)
    note sn = serialize_needle_row[OF a Cons.prems(2)]
    have le: "\<And>a x. blocks h2 a = Some x \<Longrightarrow> blocks H a = Some x"
      using sn Cons.prems(2) by blast
    show ?thesis using Cons.IH[OF r le] e True sn by simp
  qed
qed

lemma h_jsonexport_keep:
  assumes "h_jsonexport lib ctx msg h = Some (True, msg', h', lg)"
  obtains haystack slots h1 buf ns2 h2 md where
    "ncount ctx \<le> length (needles ctx)"
    "json_tokener_parse lib (takeWhile (\<lambda>c. c \<noteq> CHR 0x00) (data msg)) = Some haystack"
    "deref lib haystack h (take (ncount ctx) (needles ctx)) = Some (0, slots, h1, lg)"
    "serialize h1 slots (htons (fields' ctx)) (mdata msg) = Some (buf, ns2, h2, md)"
    "msg' = msg\<lparr>data := buf, len := length buf, mdata := md\<rparr>"
proof -
  from assms have c: "ncount ctx \<le> length (needles ctx)"
    by (auto simp: h_jsonexport_def copy_internal_def split: if_splits)
  then have ci: "copy_internal ctx = Some (ctx\<lparr>needles := take (ncount ctx) (needles ctx)\<rparr>)"
    by (simp add: copy_internal_def)
  from assms ci obtain haystack where
    p: "json_tokener_parse lib (takeWhile (\<lambda>c. c \<noteq> CHR 0x00) (data msg)) = Some haystack"
    by (auto simp: h_jsonexport_def split: if_splits option.splits)
  from assms ci p obtain ret slots h1 lg1 where
    d: "deref lib haystack h (take (ncount ctx) (needles ctx)) = Some (ret, slots, h1, lg1)"
    by (auto simp: h_jsonexport_def split: if_splits option.splits)
  from assms ci p d have z: "ret = 0"
    by (auto simp: h_jsonexport_def split: if_splits option.splits)
  from assms ci p d z obtain buf ns2 h2 md where
    s: "serialize h1 slots (htons (fields' ctx)) (mdata msg) = Some (buf, ns2, h2, md)"
    by (auto simp: h_jsonexport_def split: if_splits option.splits)
  from assms ci p d z s have m: "msg' = msg\<lparr>data := buf, len := length buf, mdata := md\<rparr> \<and> lg1 = lg"
    by (auto simp: h_jsonexport_def split: if_splits option.splits)
  show thesis using that[OF c p _ s] d z m by simp
qed

lemma h_jsonexport_keep_row:
  assumes "h_jsonexport lib ctx msg h = Some (True, msg', h', lg)"
  shows "\<exists>haystack slots h1.
      json_tokener_parse lib (takeWhile (\<lambda>c. c \<noteq> CHR 0x00) (data msg)) = Some haystack
    \<and> deref lib haystack h (take (ncount ctx) (needles ctx)) = Some (0, slots, h1, lg)
    \<and> data msg' = htons (fields' ctx) @ concat (map (field_record h1) (filter store slots))
    \<and> len msg' = length (data msg')
    \<and> (\<forall>s\<in>set (filter store slots).
           length (field_record h1 s) = 4 + (case result s of None \<Rightarrow> 0 | Some p \<Rightarrow> length' s))"
  using assms
proof (rule h_jsonexport_keep)
  fix haystack slots h1 buf ns2 h2 md
  assume p: "json_tokener_parse lib (takeWhile (\<lambda>c. c \<noteq> CHR 0x00) (data msg)) = Some haystack"
    and d: "deref lib haystack h (take (ncount ctx) (needles ctx)) = Some (0, slots, h1, lg)"
    and s: "serialize h1 slots (htons (fields' ctx)) (mdata msg) = Some (buf, ns2, h2, md)"
    and m: "msg' = msg\<lparr>data := buf, len := length buf, mdata := md\<rparr>"
  have "buf = htons (fields' ctx) @ concat (map (field_record h1) (filter store slots))
     \<and> (\<forall>s\<in>set (filter store slots).
           length (field_record h1 s) = 4 + (case result s of None \<Rightarrow> 0 | Some p \<Rightarrow> length' s))"
    by (rule serialize_row[OF s]) simp
  then show ?thesis using p d m by auto
qed

subsection \<open>The compiled state\<close>

lemma action_store_names:
  "snd (snd (action_types (actiontype_enum a)))
     = (a = ''store'' \<or> a = ''store_true'' \<or> a = ''store_meta'')"
  by (simp add: actiontype_enum_def)

lemma needle_of_store:
  "needle_of leap s = Some n \<Longrightarrow>
     store n = (elem_string s 2 = Some (Some ''store'') \<or> elem_string s 2 = Some (Some ''store_true'')
                \<or> elem_string s 2 = Some (Some ''store_meta''))"
  by (auto simp: needle_of_def Let_def action_store_names split: if_splits option.splits)

lemma needles_loop_props:
  "needles_loop leap ss f = Some (ns, f') \<Longrightarrow> f < 2 ^ 16 \<Longrightarrow>
     length ns = length ss \<and> f' = (f + length (filter store ns)) mod 2 ^ 16
     \<and> list_all2 (\<lambda>s n. needle_of leap s = Some n) ss ns"
proof (induction ss arbitrary: f ns f')
  case Nil
  then show ?case by simp
next
  case (Cons s ss)
  from Cons.prems(1) obtain n where n: "needle_of leap s = Some n"
    by (auto split: option.splits)
  let ?f1 = "if store n then (f + 1) mod 2 ^ 16 else f"
  from Cons.prems(1) n obtain ns1 where
    r: "needles_loop leap ss ?f1 = Some (ns1, f')" and e: "ns = n # ns1"
    by (auto split: option.splits)
  have b: "?f1 < 2 ^ 16" using Cons.prems(2) by simp
  note ih = Cons.IH[OF r b]
  have "f' = (f + length (filter store ns)) mod 2 ^ 16"
  proof (cases "store n")
    case True
    then have "f' = ((f + 1) mod 2 ^ 16 + length (filter store ns1)) mod 2 ^ 16"
      using ih by simp
    also have "\<dots> = (f + 1 + length (filter store ns1)) mod 2 ^ 16"
      by (rule mod_add_left_eq)
    finally show ?thesis using True e by simp
  next
    case False
    then show ?thesis using ih e by simp
  qed
  then show ?case using ih e n by simp
qed

lemma init_props:
  assumes "h_jsonexport_init config = Some ctx"
    and "config_setting_get_member config ''jpointers'' = Some needlestack"
  shows "length (needles ctx) = config_setting_length needlestack
       \<and> ncount ctx = config_setting_length needlestack mod 2 ^ 16
       \<and> fields' ctx = length (filter store (needles ctx)) mod 2 ^ 16
       \<and> list_all2 (\<lambda>s n. needle_of leapyear s = Some n)
            (config_setting_elems needlestack) (needles ctx)"
proof -
  from assms obtain ns f where
    l: "needles_loop leapyear (config_setting_elems needlestack) 0 = Some (ns, f)"
    and c: "ctx = \<lparr>needles = ns, leapyears_shared = leapyear,
                  ncount = config_setting_length needlestack mod 2 ^ 16, fields' = f\<rparr>"
    by (auto simp: h_jsonexport_init_def split: option.splits)
  show ?thesis using needles_loop_props[OF l] c by (simp add: config_setting_length_def)
qed

lemma needles_loop_replicate:
  "needle_of leap s = Some n \<Longrightarrow> \<not> store n \<Longrightarrow>
     needles_loop leap (replicate k s) f = Some (replicate k n, f)"
  by (induction k) simp_all

text \<open>
  Claim C1, as amended. When the configured list has fewer than \<open>2 ^ 16\<close> entries and
  the hook keeps the message, the new payload is the compile-time count \<open>fields\<close> in two
  big-endian bytes, followed by one field record for each needle with \<open>store\<close> set, in the
  order of the needles, and by nothing else. \<open>fields\<close> is the number of configured entries
  whose action is \<open>store\<close>, \<open>store_true\<close> or \<open>store_meta\<close>, whatever the pointers resolve
  to; a needle whose \<open>store\<close> is unset has no record. Each record is the four bytes of
  the length and, unless the slot holds NULL, that many bytes.
\<close>

theorem h_jsonexport_row:
  assumes "h_jsonexport_init config = Some ctx"
    and "config_setting_get_member config ''jpointers'' = Some needlestack"
    and "config_setting_length needlestack < 2 ^ 16"
    and "h_jsonexport lib ctx msg h = Some (True, msg', h', lg)"
  shows "\<exists>haystack slots h1.
      json_tokener_parse lib (takeWhile (\<lambda>c. c \<noteq> CHR 0x00) (data msg)) = Some haystack
    \<and> deref lib haystack h (needles ctx) = Some (0, slots, h1, lg)
    \<and> map jpointer slots = map jpointer (needles ctx)
    \<and> map store slots
        = map (\<lambda>s. elem_string s 2 = Some (Some ''store'')
                    \<or> elem_string s 2 = Some (Some ''store_true'')
                    \<or> elem_string s 2 = Some (Some ''store_meta''))
            (config_setting_elems needlestack)
    \<and> fields' ctx = length (filter store (needles ctx))
    \<and> length (filter store slots) = fields' ctx
    \<and> data msg' = htons (fields' ctx) @ concat (map (field_record h1) (filter store slots))
    \<and> len msg' = length (data msg')
    \<and> (\<forall>s\<in>set (filter store slots).
           length (field_record h1 s) = 4 + (case result s of None \<Rightarrow> 0 | Some p \<Rightarrow> length' s))"
proof -
  note ip = init_props[OF assms(1,2)]
  have nc: "ncount ctx = length (needles ctx)" using ip assms(3) by simp
  have "length (filter store (needles ctx)) \<le> length (needles ctx)" by (rule length_filter_le)
  then have fl: "fields' ctx = length (filter store (needles ctx))" using ip assms(3) by simp
  have st: "map store (needles ctx)
      = map (\<lambda>s. elem_string s 2 = Some (Some ''store'')
                  \<or> elem_string s 2 = Some (Some ''store_true'')
                  \<or> elem_string s 2 = Some (Some ''store_meta''))
          (config_setting_elems needlestack)"
  proof -
    have "list_all2 (\<lambda>s n. needle_of leapyear s = Some n)
            (config_setting_elems needlestack) (needles ctx)" using ip by simp
    then show ?thesis
      by (induction rule: list_all2_induct) (simp_all add: needle_of_store)
  qed
  from h_jsonexport_keep_row[OF assms(4)] obtain haystack slots h1 where
    p: "json_tokener_parse lib (takeWhile (\<lambda>c. c \<noteq> CHR 0x00) (data msg)) = Some haystack"
    and d: "deref lib haystack h (take (ncount ctx) (needles ctx)) = Some (0, slots, h1, lg)"
    and r: "data msg' = htons (fields' ctx) @ concat (map (field_record h1) (filter store slots))"
    and l: "len msg' = length (data msg')"
    and w: "\<forall>s\<in>set (filter store slots).
           length (field_record h1 s) = 4 + (case result s of None \<Rightarrow> 0 | Some p \<Rightarrow> length' s)"
    by blast
  have d': "deref lib haystack h (needles ctx) = Some (0, slots, h1, lg)"
    using d nc by simp
  note ds = deref_static[OF d']
  have cnt: "length (filter store slots) = length (filter store (needles ctx))"
  proof -
    have "length (filter store slots) = length (filter id (map store slots))"
      by (simp only: length_filter_map comp_def id_def)
    also have "\<dots> = length (filter id (map store (needles ctx)))" using ds by simp
    also have "\<dots> = length (filter store (needles ctx))"
      by (simp only: length_filter_map comp_def id_def)
    finally show ?thesis .
  qed
  show ?thesis
    using p d' ds st fl cnt r l w by (intro exI[of _ haystack] exI[of _ slots] exI[of _ h1]) simp
qed

lemmas ab_eval = config_ab_def ctx_ab_def lib_ab_def row_ab_def text_store_needle_def

lemma init_ab: "h_jsonexport_init config_ab = Some ctx_ab"
  by (simp add: ab_eval cfg_eval Suc_Suc_0)

lemma member_ab:
  "config_setting_get_member config_ab ''jpointers''
     = Some (Conf_list [entry5 ''/a'' ''text'' ''store'' ''noop'' [],
                        entry5 ''/b'' ''text'' ''store'' ''noop'' []])"
  by (simp add: config_ab_def config_of_def config_setting_get_member_def)

lemma length_ab:
  "config_setting_length (Conf_list [entry5 ''/a'' ''text'' ''store'' ''noop'' [],
                                     entry5 ''/b'' ''text'' ''store'' ''noop'' []]) < 2 ^ 16"
  by (simp add: config_setting_length_def config_setting_elems_def)

lemma keep_ab:
  "h_jsonexport lib_ab ctx_ab (message_of ''{\"a\":\"x\"}'') empty_heap
     = Some (True, row_ab, empty_heap, [])"
  by (simp add: ab_eval hook_eval bytes_eval)

lemma parse_ab:
  "json_tokener_parse lib_ab (takeWhile (\<lambda>c. c \<noteq> CHR 0x00) (data (message_of ''{\"a\":\"x\"}'')))
     = Some ''{ \"a\": \"x\" }''"
  by (simp add: lib_ab_def jsonc_table_def message_of_def)

theorem h_jsonexport_row_witness:
  "h_jsonexport_init config_ab = Some ctx_ab
   \<and> h_jsonexport lib_ab ctx_ab (message_of ''{\"a\":\"x\"}'') empty_heap
       = Some (True, row_ab, empty_heap, [])
   \<and> (\<exists>slots h1.
         deref lib_ab ''{ \"a\": \"x\" }'' empty_heap (needles ctx_ab) = Some (0, slots, h1, [])
       \<and> map jpointer slots = [''/a'', ''/b'']
       \<and> length (filter store slots) = 2
       \<and> data row_ab = htons 2 @ concat (map (field_record h1) (filter store slots)))"
proof -
  from h_jsonexport_row[OF init_ab member_ab length_ab keep_ab]
  obtain haystack slots h1 where
    p: "json_tokener_parse lib_ab
          (takeWhile (\<lambda>c. c \<noteq> CHR 0x00) (data (message_of ''{\"a\":\"x\"}''))) = Some haystack"
    and d: "deref lib_ab haystack empty_heap (needles ctx_ab) = Some (0, slots, h1, [])"
    and j: "map jpointer slots = map jpointer (needles ctx_ab)"
    and f: "length (filter store slots) = fields' ctx_ab"
    and r: "data row_ab = htons (fields' ctx_ab) @ concat (map (field_record h1) (filter store slots))"
    by blast
  have hs: "haystack = ''{ \"a\": \"x\" }''" using p parse_ab by simp
  have "deref lib_ab ''{ \"a\": \"x\" }'' empty_heap (needles ctx_ab) = Some (0, slots, h1, [])
       \<and> map jpointer slots = [''/a'', ''/b'']
       \<and> length (filter store slots) = 2
       \<and> data row_ab = htons 2 @ concat (map (field_record h1) (filter store slots))"
    using d j f r hs by (simp add: ctx_ab_def text_store_needle_def)
  then have "\<exists>slots h1.
         deref lib_ab ''{ \"a\": \"x\" }'' empty_heap (needles ctx_ab) = Some (0, slots, h1, [])
       \<and> map jpointer slots = [''/a'', ''/b'']
       \<and> length (filter store slots) = 2
       \<and> data row_ab = htons 2 @ concat (map (field_record h1) (filter store slots))"
    by (intro exI[of _ slots] exI[of _ h1])
  then show ?thesis by (intro conjI init_ab keep_ab)
qed

text \<open>
  Claim C1 as stated fails where the counts, which are 16-bit, wrap around. With 65537
  configured entries, the first two stored and the others not, the compiled count is 2
  and the hook works on \<open>65537 mod 2 ^ 16 = 1\<close> needle: the row announces two fields
  and holds one field record.
\<close>

theorem h_jsonexport_row_counterexample:
  "map_option
     (\<lambda>ctx. (fields' ctx, length (filter store (needles ctx)),
             h_jsonexport lib_ab ctx (message_of ''{\"a\":\"x\"}'') empty_heap))
     (h_jsonexport_init
        (config_of (entry5 ''/a'' ''text'' ''store'' ''noop'' []
                    # entry5 ''/a'' ''text'' ''store'' ''noop'' []
                    # replicate 65535 (entry5 ''/a'' ''text'' ''discard_true'' ''exists'' []))))
   = Some (2, 2,
       Some (True,
         \<lparr>data = [CHR 0x00, CHR 0x02, CHR 0x00, CHR 0x00, CHR 0x00, CHR 0x01, CHR ''x''],
          len = 7, mdata = (\<lambda>k. None)\<rparr>,
         empty_heap, []))"
proof -
  let ?d = "entry5 ''/a'' ''text'' ''discard_true'' ''exists'' []"
  let ?nd = "\<lparr>jpointer = ''/a'', format = Some Json_to_pqtext, free = Some Obj_noop,
      leapyears = leapyear, length' = 0, result = None, action = Some Action_discard_true,
      filter' = Some Filter_exists, store = False, filter_data = None, metadata = False\<rparr>"
  have nd: "needle_of leapyear ?d = Some ?nd"
    by (simp add: cfg_eval)
  have rep: "\<And>f. needles_loop leapyear (replicate 65535 ?d) f = Some (replicate 65535 ?nd, f)"
    by (rule needles_loop_replicate[OF nd]) simp
  have ns: "needle_of leapyear (entry5 ''/a'' ''text'' ''store'' ''noop'' [])
      = Some (text_store_needle ''/a'')"
    by (simp add: cfg_eval text_store_needle_def)
  have init: "h_jsonexport_init
        (config_of (entry5 ''/a'' ''text'' ''store'' ''noop'' []
                    # entry5 ''/a'' ''text'' ''store'' ''noop'' []
                    # replicate 65535 ?d))
     = Some \<lparr>needles = text_store_needle ''/a'' # text_store_needle ''/a'' # replicate 65535 ?nd,
             leapyears_shared = leapyear, ncount = 1, fields' = 2\<rparr>"
    by (simp add: h_jsonexport_init_def config_of_def config_setting_get_member_def
        config_setting_elems_def config_setting_length_def ns rep text_store_needle_def
        Suc_Suc_0)
  show ?thesis
    unfolding init
    by (simp add: text_store_needle_def lib_ab_def hook_eval bytes_eval)
qed

subsection \<open>A pointer that does not resolve\<close>

lemma htobe32_null: "htobe32 4294967295 = [CHR 0xFF, CHR 0xFF, CHR 0xFF, CHR 0xFF]"
  by (simp add: htobe32_def char_of_eq_iff)

text \<open>
  The record of an unresolved needle among the needles the hook works on, the first
  \<open>ncount\<close> of the compiled state.
\<close>

lemma unresolved_record:
  assumes "h_jsonexport lib ctx msg h = Some (True, msg', h', lg)"
    and "json_tokener_parse lib (takeWhile (\<lambda>c. c \<noteq> CHR 0x00) (data msg)) = Some haystack"
    and "i < ncount ctx"
    and "store (needles ctx ! i)"
    and "fst (json_pointer_get lib haystack (jpointer (needles ctx ! i))) \<noteq> 0"
  shows "\<exists>slots h1.
      deref lib haystack h (take (ncount ctx) (needles ctx)) = Some (0, slots, h1, lg)
    \<and> length slots = ncount ctx
    \<and> field_record h1 (slots ! i) = [CHR 0xFF, CHR 0xFF, CHR 0xFF, CHR 0xFF]
    \<and> data msg' = htons (fields' ctx)
         @ concat (map (field_record h1) (filter store (take i slots)))
         @ [CHR 0xFF, CHR 0xFF, CHR 0xFF, CHR 0xFF]
         @ concat (map (field_record h1) (filter store (drop (Suc i) slots)))"
proof -
  let ?ns = "take (ncount ctx) (needles ctx)"
  from assms(1) have nc: "ncount ctx \<le> length (needles ctx)"
    by (rule h_jsonexport_keep)
  from h_jsonexport_keep_row[OF assms(1)] assms(2) obtain slots h1 where
    d: "deref lib haystack h ?ns = Some (0, slots, h1, lg)"
    and r: "data msg' = htons (fields' ctx) @ concat (map (field_record h1) (filter store slots))"
    by auto
  note ds = deref_static[OF d]
  have len: "length slots = ncount ctx" using ds nc by simp
  have i: "i < length ?ns" using assms(3) nc by simp
  have nth: "?ns ! i = needles ctx ! i" using assms(3) by simp
  have u: "result (slots ! i) = None \<and> length' (slots ! i) = 2 ^ 32 - 1"
    using deref_unresolved[OF d i] assms(5) nth by simp
  have fr: "field_record h1 (slots ! i) = [CHR 0xFF, CHR 0xFF, CHR 0xFF, CHR 0xFF]"
    using u by (simp add: field_record_def htobe32_null)
  have "store (slots ! i) = store (?ns ! i)"
    using ds i by (metis length_map nth_map)
  then have st: "store (slots ! i)" using assms(4) nth by simp
  have sp: "slots = take i slots @ slots ! i # drop (Suc i) slots"
    using i ds by (simp add: id_take_nth_drop)
  have "filter store slots
      = filter store (take i slots) @ slots ! i # filter store (drop (Suc i) slots)"
    by (subst sp) (simp add: st)
  then have "data msg' = htons (fields' ctx)
         @ concat (map (field_record h1) (filter store (take i slots)))
         @ [CHR 0xFF, CHR 0xFF, CHR 0xFF, CHR 0xFF]
         @ concat (map (field_record h1) (filter store (drop (Suc i) slots)))"
    using r fr by simp
  then show ?thesis using d len fr by blast
qed

text \<open>
  Claim C6, as amended. When the configured list has fewer than \<open>2 ^ 16\<close> entries and
  the hook keeps the message, every needle with \<open>store\<close> set whose pointer did not resolve
  contributes the four bytes FF FF FF FF and no payload byte; the records of the stored
  needles before it precede these bytes and the records of the stored needles after it
  follow them, in the order of the needles.
\<close>

theorem unresolved_field_is_null:
  assumes "h_jsonexport_init config = Some ctx"
    and "config_setting_get_member config ''jpointers'' = Some needlestack"
    and "config_setting_length needlestack < 2 ^ 16"
    and "h_jsonexport lib ctx msg h = Some (True, msg', h', lg)"
    and "json_tokener_parse lib (takeWhile (\<lambda>c. c \<noteq> CHR 0x00) (data msg)) = Some haystack"
    and "i < length (needles ctx)"
    and "store (needles ctx ! i)"
    and "fst (json_pointer_get lib haystack (jpointer (needles ctx ! i))) \<noteq> 0"
  shows "\<exists>slots h1.
      deref lib haystack h (needles ctx) = Some (0, slots, h1, lg)
    \<and> length (needles ctx) = config_setting_length needlestack
    \<and> length slots = length (needles ctx)
    \<and> map jpointer slots = map jpointer (needles ctx)
    \<and> map store slots = map store (needles ctx)
    \<and> field_record h1 (slots ! i) = [CHR 0xFF, CHR 0xFF, CHR 0xFF, CHR 0xFF]
    \<and> data msg' = htons (fields' ctx)
         @ concat (map (field_record h1) (filter store (take i slots)))
         @ [CHR 0xFF, CHR 0xFF, CHR 0xFF, CHR 0xFF]
         @ concat (map (field_record h1) (filter store (drop (Suc i) slots)))"
proof -
  note ip = init_props[OF assms(1,2)]
  have nl: "length (needles ctx) = config_setting_length needlestack" using ip by simp
  have nc: "ncount ctx = length (needles ctx)" using ip assms(3) by simp
  have i: "i < ncount ctx" using assms(6) nc by simp
  from unresolved_record[OF assms(4,5) i assms(7,8)] obtain slots h1 where
    d: "deref lib haystack h (take (ncount ctx) (needles ctx)) = Some (0, slots, h1, lg)"
    and l: "length slots = ncount ctx"
    and f: "field_record h1 (slots ! i) = [CHR 0xFF, CHR 0xFF, CHR 0xFF, CHR 0xFF]"
    and r: "data msg' = htons (fields' ctx)
         @ concat (map (field_record h1) (filter store (take i slots)))
         @ [CHR 0xFF, CHR 0xFF, CHR 0xFF, CHR 0xFF]
         @ concat (map (field_record h1) (filter store (drop (Suc i) slots)))"
    by blast
  have d': "deref lib haystack h (needles ctx) = Some (0, slots, h1, lg)" using d nc by simp
  note ds = deref_static[OF d']
  have "deref lib haystack h (needles ctx) = Some (0, slots, h1, lg)
    \<and> length (needles ctx) = config_setting_length needlestack
    \<and> length slots = length (needles ctx)
    \<and> map jpointer slots = map jpointer (needles ctx)
    \<and> map store slots = map store (needles ctx)
    \<and> field_record h1 (slots ! i) = [CHR 0xFF, CHR 0xFF, CHR 0xFF, CHR 0xFF]
    \<and> data msg' = htons (fields' ctx)
         @ concat (map (field_record h1) (filter store (take i slots)))
         @ [CHR 0xFF, CHR 0xFF, CHR 0xFF, CHR 0xFF]
         @ concat (map (field_record h1) (filter store (drop (Suc i) slots)))"
    using d' nl l nc ds f r by simp
  then show ?thesis by (intro exI[of _ slots] exI[of _ h1])
qed

theorem unresolved_field_is_null_witness:
  "\<exists>slots h1.
      deref lib_ab ''{ \"a\": \"x\" }'' empty_heap (needles ctx_ab) = Some (0, slots, h1, [])
    \<and> length slots = 2
    \<and> map jpointer slots = [''/a'', ''/b'']
    \<and> field_record h1 (slots ! 1) = [CHR 0xFF, CHR 0xFF, CHR 0xFF, CHR 0xFF]
    \<and> data row_ab = htons 2
         @ concat (map (field_record h1) (filter store (take 1 slots)))
         @ [CHR 0xFF, CHR 0xFF, CHR 0xFF, CHR 0xFF]
         @ concat (map (field_record h1) (filter store (drop (Suc 1) slots)))"
proof -
  have i: "1 < length (needles ctx_ab)" by (simp add: ctx_ab_def)
  have s: "store (needles ctx_ab ! 1)" by (simp add: ctx_ab_def text_store_needle_def)
  have u: "fst (json_pointer_get lib_ab ''{ \"a\": \"x\" }'' (jpointer (needles ctx_ab ! 1))) \<noteq> 0"
    by (simp add: ctx_ab_def text_store_needle_def lib_ab_def jsonc_table_def)
  from unresolved_field_is_null[OF init_ab member_ab length_ab keep_ab parse_ab i s u]
  obtain slots h1 where
    d: "deref lib_ab ''{ \"a\": \"x\" }'' empty_heap (needles ctx_ab) = Some (0, slots, h1, [])"
    and l: "length slots = length (needles ctx_ab)"
    and j: "map jpointer slots = map jpointer (needles ctx_ab)"
    and f: "field_record h1 (slots ! 1) = [CHR 0xFF, CHR 0xFF, CHR 0xFF, CHR 0xFF]"
    and r: "data row_ab = htons (fields' ctx_ab)
         @ concat (map (field_record h1) (filter store (take 1 slots)))
         @ [CHR 0xFF, CHR 0xFF, CHR 0xFF, CHR 0xFF]
         @ concat (map (field_record h1) (filter store (drop (Suc 1) slots)))"
    by (elim exE conjE) (rule that; assumption)
  have "deref lib_ab ''{ \"a\": \"x\" }'' empty_heap (needles ctx_ab) = Some (0, slots, h1, [])
    \<and> length slots = 2
    \<and> map jpointer slots = [''/a'', ''/b'']
    \<and> field_record h1 (slots ! 1) = [CHR 0xFF, CHR 0xFF, CHR 0xFF, CHR 0xFF]
    \<and> data row_ab = htons 2
         @ concat (map (field_record h1) (filter store (take 1 slots)))
         @ [CHR 0xFF, CHR 0xFF, CHR 0xFF, CHR 0xFF]
         @ concat (map (field_record h1) (filter store (drop (Suc 1) slots)))"
    using d l j f r by (simp add: ctx_ab_def text_store_needle_def)
  then show ?thesis by (intro exI[of _ slots] exI[of _ h1])
qed

text \<open>
  Claim C6 as stated fails where the 16-bit count of needles wraps around. With 65537
  configured entries, of which the second is the stored needle \<open>/b\<close>, the hook works on
  \<open>65537 mod 2 ^ 16 = 1\<close> needle: on the document \<open>{"a":"x"}\<close> the pointer \<open>/b\<close> does not
  resolve, the message is kept, and the row holds no record for \<open>/b\<close>.
\<close>

theorem unresolved_field_is_null_counterexample:
  "map_option
     (\<lambda>ctx. (store (needles ctx ! 1), jpointer (needles ctx ! 1),
             fst (json_pointer_get lib_ab ''{ \"a\": \"x\" }'' (jpointer (needles ctx ! 1))),
             h_jsonexport lib_ab ctx (message_of ''{\"a\":\"x\"}'') empty_heap))
     (h_jsonexport_init
        (config_of (entry5 ''/a'' ''text'' ''store'' ''noop'' []
                    # entry5 ''/b'' ''text'' ''store'' ''noop'' []
                    # replicate 65535 (entry5 ''/a'' ''text'' ''discard_true'' ''exists'' []))))
   = Some (True, ''/b'', - 1,
       Some (True,
         \<lparr>data = [CHR 0x00, CHR 0x02, CHR 0x00, CHR 0x00, CHR 0x00, CHR 0x01, CHR ''x''],
          len = 7, mdata = (\<lambda>k. None)\<rparr>,
         empty_heap, []))"
proof -
  let ?d = "entry5 ''/a'' ''text'' ''discard_true'' ''exists'' []"
  let ?nd = "\<lparr>jpointer = ''/a'', format = Some Json_to_pqtext, free = Some Obj_noop,
      leapyears = leapyear, length' = 0, result = None, action = Some Action_discard_true,
      filter' = Some Filter_exists, store = False, filter_data = None, metadata = False\<rparr>"
  have nd: "needle_of leapyear ?d = Some ?nd"
    by (simp add: cfg_eval)
  have rep: "\<And>f. needles_loop leapyear (replicate 65535 ?d) f = Some (replicate 65535 ?nd, f)"
    by (rule needles_loop_replicate[OF nd]) simp
  have ns: "\<And>jp. needle_of leapyear (entry5 jp ''text'' ''store'' ''noop'' [])
      = Some (text_store_needle jp)"
    by (simp add: cfg_eval text_store_needle_def)
  have init: "h_jsonexport_init
        (config_of (entry5 ''/a'' ''text'' ''store'' ''noop'' []
                    # entry5 ''/b'' ''text'' ''store'' ''noop'' []
                    # replicate 65535 ?d))
     = Some \<lparr>needles = text_store_needle ''/a'' # text_store_needle ''/b'' # replicate 65535 ?nd,
             leapyears_shared = leapyear, ncount = 1, fields' = 2\<rparr>"
    by (simp add: h_jsonexport_init_def config_of_def config_setting_get_member_def
        config_setting_elems_def config_setting_length_def ns rep text_store_needle_def
        Suc_Suc_0)
  show ?thesis
    unfolding init
    by (simp add: text_store_needle_def lib_ab_def hook_eval bytes_eval)
qed

subsection \<open>The match filter\<close>

text \<open>
  Claim C7, as amended. With a filter argument configured, the \<open>match\<close> filter returns
  (it does not crash) and its result is true if and only if the pointer resolved, the
  value found is not the JSON null (the object pointer is not NULL) and the string
  rendering of the value equals the argument. The call through the needle's function
  pointer is this function, and its result, true or false, is what the action receives:
  with the action \<open>discard_false\<close> the evaluator drops the message exactly when the
  filter is false.
\<close>

theorem filter_match_iff:
  assumes "filter_data current = Some d"
  shows "filter_match_fn lib jp found current
           = Some (jp \<and> (\<exists>v. found = Some v \<and> json_object_get_string lib v = d))
       \<and> (filter' current = Some Filter_match \<longrightarrow>
            call_filter lib jp found current = filter_match_fn lib jp found current)
       \<and> (filter' current = Some Filter_match \<and> action current = Some Action_discard_false
            \<and> json_pointer_get lib haystack (jpointer current) = (ret, found) \<longrightarrow>
            (deref_needle lib haystack h current = Some (1, current, h, []))
              = (\<not> (ret = 0 \<and> (\<exists>v. found = Some v \<and> json_object_get_string lib v = d))))"
proof -
  have 1: "filter_match_fn lib jp found current
           = Some (jp \<and> (\<exists>v. found = Some v \<and> json_object_get_string lib v = d))" for jp
    using assms by (cases found) (auto simp: filter_match_fn_def)
  have 2: "filter' current = Some Filter_match \<longrightarrow>
            call_filter lib jp found current = filter_match_fn lib jp found current"
    by (simp add: call_filter_def)
  have 3: "filter' current = Some Filter_match \<and> action current = Some Action_discard_false
            \<and> json_pointer_get lib haystack (jpointer current) = (ret, found) \<longrightarrow>
            (deref_needle lib haystack h current = Some (1, current, h, []))
              = (\<not> (ret = 0 \<and> (\<exists>v. found = Some v \<and> json_object_get_string lib v = d)))"
  proof (intro impI, elim conjE)
    assume f: "filter' current = Some Filter_match"
      and a: "action current = Some Action_discard_false"
      and p: "json_pointer_get lib haystack (jpointer current) = (ret, found)"
    let ?fr = "ret = 0 \<and> (\<exists>v. found = Some v \<and> json_object_get_string lib v = d)"
    have cf: "call_filter lib (ret = 0) found current = Some ?fr"
      using 1[of "ret = 0"] f by (simp add: call_filter_def)
    have ca: "call_action ?fr found current = Some (?fr, current)"
      using a by (simp add: call_action_def action_discard_false_fn_def)
    show "(deref_needle lib haystack h current = Some (1, current, h, [])) = (\<not> ?fr)"
    proof (cases ?fr)
      case True
      then have "deref_needle lib haystack h current
          = (case call_format lib found current h of
               None \<Rightarrow> None
             | Some (ok, n2, h2, lg) \<Rightarrow>
                 if \<not> ok then Some (- 1, n2, h2, lg @ [Failed_jpointer_deref (jpointer current)])
                 else Some (0, n2, h2, lg))"
        using cf ca by (simp add: deref_needle_def p)
      then show ?thesis using True by (auto split: option.splits if_splits)
    next
      case False
      then have "deref_needle lib haystack h current = Some (1, current, h, [])"
        using cf ca by (simp add: deref_needle_def p)
      then show ?thesis using False by simp
    qed
  qed
  show ?thesis using 1[of jp] 2 3 by blast
qed

theorem filter_match_iff_witness:
  "filter_match_fn lib_ab True (Some ''x'') ((text_store_needle ''/a'')\<lparr>filter_data := Some ''x''\<rparr>)
     = Some True
   \<and> filter_match_fn lib_ab True (Some ''x'') ((text_store_needle ''/a'')\<lparr>filter_data := Some ''y''\<rparr>)
     = Some False
   \<and> filter_match_fn lib_ab False (Some ''x'') ((text_store_needle ''/a'')\<lparr>filter_data := Some ''x''\<rparr>)
     = Some False"
proof -
  have a: "filter_data ((text_store_needle ''/a'')\<lparr>filter_data := Some ''x''\<rparr>) = Some ''x''"
    by simp
  have b: "filter_data ((text_store_needle ''/a'')\<lparr>filter_data := Some ''y''\<rparr>) = Some ''y''"
    by simp
  show ?thesis
    using filter_match_iff[OF a, of lib_ab True "Some ''x''"]
      filter_match_iff[OF b, of lib_ab True "Some ''x''"]
      filter_match_iff[OF a, of lib_ab False "Some ''x''"]
    by (simp add: lib_ab_def jsonc_table_def)
qed

text \<open>
  Claim C7 as stated fails for the JSON null. On the document \<open>{"a":null}\<close> the pointer
  \<open>/a\<close> resolves, to NULL; with the filter argument \<open>null\<close>, which is the rendering of
  that value, the claim makes the filter true, and the filter returns false.
\<close>

theorem filter_match_null_counterexample:
  "json_pointer_get (jsonc_table ''{\"a\":null}'' ''{ \"a\": null }'' [(''/a'', None)])
      ''{ \"a\": null }'' ''/a'' = (0, None)
   \<and> spec_rendering (jsonc_table ''{\"a\":null}'' ''{ \"a\": null }'' [(''/a'', None)]) None
      = ''null''
   \<and> filter_match_fn (jsonc_table ''{\"a\":null}'' ''{ \"a\": null }'' [(''/a'', None)])
        True None ((text_store_needle ''/a'')\<lparr>filter_data := Some ''null''\<rparr>)
      = Some False"
  by (simp add: jsonc_table_def spec_rendering_def filter_match_fn_def)

subsection \<open>Where the code leaves the spec\<close>

lemma h_jsonexport_false_unchanged:
  "h_jsonexport lib ctx msg h = Some (False, msg', h', lg) \<Longrightarrow> msg' = msg"
  by (auto simp: h_jsonexport_def split: option.splits if_splits)

lemma timestamp_epoch_accepts:
  assumes "length leap = 2048"
  shows "(\<exists>e. timestamp_epoch leap ts = Some (Inr e))
     = (ts_supported ts \<and> \<not> snd (ts_fields ts)
        \<and> 2000 \<le> year (fst (ts_fields ts)) \<and> year (fst (ts_fields ts)) \<le> 4027
        \<and> 1 \<le> month (fst (ts_fields ts)) \<and> month (fst (ts_fields ts)) \<le> 12
        \<and> day (fst (ts_fields ts)) \<le> 31
        \<and> hour (fst (ts_fields ts)) \<le> 23 \<and> minute (fst (ts_fields ts)) \<le> 59
        \<and> second (fst (ts_fields ts)) \<le> 60
        \<and> \<not> (month (fst (ts_fields ts)) = 2 \<and> day (fst (ts_fields ts)) > 29))"
proof -
  obtain t errno where f: "ts_fields ts = (t, errno)" by (cases "ts_fields ts")
  have y: "2000 \<le> year t \<Longrightarrow> year t \<le> 4027 \<Longrightarrow> (year t + 2 ^ 32 - 2000) mod 2 ^ 32 < 2048"
  proof -
    assume a: "2000 \<le> year t" "year t \<le> 4027"
    then have "year t + 2 ^ 32 - 2000 = (year t - 2000) + 1 * 2 ^ 32" by simp
    then have "(year t + 2 ^ 32 - 2000) mod 2 ^ 32 = (year t - 2000) mod 2 ^ 32"
      by (simp only: mod_mult_self1)
    then show ?thesis using a by simp
  qed
  show ?thesis
    using y assms
    by (auto simp: timestamp_epoch_def f ts_range_def ts_epoch_def split: if_splits)
qed

lemma timestamp_reject_logs:
  "timestamp_epoch leap ts = Some (Inl d) \<Longrightarrow>
     d = Datestring_not_supported ts \<or> d = Error_in_date_conversion
     \<or> d = Date_out_of_range ts \<or> d = Datestring_not_a_date ts"
  by (auto simp: timestamp_epoch_def ts_range_def ts_epoch_def case_prod_beta Let_def
      split: if_splits option.splits)

lemma timestamp_epoch_formula_in_range:
  assumes "timestamp_epoch leap ts = Some (Inr e)"
    and "t = fst (ts_fields ts)" and "y = year t - 2000"
    and "1 \<le> day t"
    and "second t + 60 * minute t + 3600 * hour t
          + 86400 * (yday_loop 1 (month t) y 0 + day t - 1)
          + 86400 * (leap ! y) + 31536000 * y < 2 ^ 32"
    and "micro t < 2 ^ 32"
  shows "e = 1000000 * (second t + 60 * minute t + 3600 * hour t
          + 86400 * (yday_loop 1 (month t) y 0 + day t - 1)
          + 86400 * (leap ! y) + 31536000 * y) + micro t"
proof -
  note a = timestamp_epoch_Inr[OF assms(1)]
  have yr: "2000 \<le> year t" using a assms(2) by (auto simp: ts_range_def split: if_splits)
  have "year t + 2 ^ 32 - 2000 = (year t - 2000) + 1 * 2 ^ 32" using yr by simp
  then have "(year t + 2 ^ 32 - 2000) mod 2 ^ 32 = (year t - 2000) mod 2 ^ 32"
    by (simp only: mod_mult_self1)
  moreover have "y < 2 ^ 32" using assms(5) by simp
  ultimately have y: "(year t + 2 ^ 32 - 2000) mod 2 ^ 32 = y" using assms(3) by simp
  let ?yl = "yday_loop 1 (month t) y 0"
  have yd: "?yl + day t < 2 ^ 32" using assms(4,5) by simp
  have "?yl + day t + 2 ^ 32 - 1 = (?yl + day t - 1) + 1 * 2 ^ 32" using assms(4) by simp
  then have "(?yl + day t + 2 ^ 32 - 1) mod 2 ^ 32 = (?yl + day t - 1) mod 2 ^ 32"
    by (simp only: mod_mult_self1)
  then have yd1: "(?yl + day t + 2 ^ 32 - 1) mod 2 ^ 32 = ?yl + day t - 1" using yd by simp
  have f1: "(?yl + day t) mod 2 ^ 32 = ?yl + day t" using yd by simp
  have "ts_seconds leap t = (second t + minute t * 60 + hour t * 3600
          + (?yl + day t - 1) * 86400 + (leap ! y) * 86400 + y * 31536000) mod 2 ^ 32"
    by (simp only: ts_seconds_def Let_def y f1 yd1)
  also have "\<dots> = second t + minute t * 60 + hour t * 3600
          + (?yl + day t - 1) * 86400 + (leap ! y) * 86400 + y * 31536000"
    using assms(5) by (simp add: mult.commute)
  finally have s: "ts_seconds leap t = second t + 60 * minute t + 3600 * hour t
          + 86400 * (?yl + day t - 1) + 86400 * (leap ! y) + 31536000 * y"
    by (simp add: mult.commute)
  have "e = (ts_seconds leap t * 1000000 + micro t) mod 2 ^ 64"
    using a assms(2) by (simp add: ts_epoch_def split: if_splits)
  moreover have "ts_seconds leap t * 1000000 + micro t < 2 ^ 64"
    using ts_seconds_lt[of leap t] assms(6) by simp
  ultimately show ?thesis using s by (simp add: mult.commute)
qed

text \<open>
  Claim C2 fails on the code: the hook does not return on every message. On the
  document \<open>{"a":null}\<close> with one stored text needle \<open>/a\<close>, the pointer resolves to the JSON
  null, which json-c gives as NULL; the filter and the action pass, and the formatter
  calls \<open>strlen\<close> on the NULL that \<open>json_object_get_string\<close> returns.
\<close>

theorem h_jsonexport_null_value_crash:
  "map_option
     (\<lambda>ctx. h_jsonexport
        (jsonc_table ''{\"a\":null}'' ''{ \"a\": null }'' [(''/a'', None)])
        ctx (message_of ''{\"a\":null}'') empty_heap)
     (h_jsonexport_init (config_of [entry5 ''/a'' ''text'' ''store'' ''noop'' []]))
   = Some None"
  by (rule null_value_crash)

text \<open>
  Claim C3 fails on the code: the seconds are summed in 32 bits. For
  \<open>2137-01-01T00:00:00Z\<close> the formula of the claim gives 4323369600 seconds, which is
  more than \<open>2 ^ 32\<close>; the code stores the microseconds of 28402304 seconds.
\<close>

theorem timestamp_epoch_wraps:
  "timestamp_epoch leapyear ''2137-01-01T00:00:00Z'' = Some (Inr (1000000 * 28402304))
   \<and> 0 + 60 * 0 + 3600 * 0 + 86400 * (1 - 1) + 86400 * (leapyear ! 137) + 31536000 * 137
       = (4323369600 :: nat)
   \<and> (4323369600 :: nat) mod 2 ^ 32 = 28402304"
  by (simp add: ts_2137 leapyear_137)

text \<open>
  Claim C4 fails on the code: the day is only checked against 31. The string
  \<open>2000-01-00T00:00:00Z\<close>, day 0, is accepted; day 0 less one wraps around, and the value
  stored is that of an instant in 2136.
\<close>

theorem timestamp_day_zero_accepted:
  "timestamp_epoch leapyear ''2000-01-00T00:00:00Z'' = Some (Inr (1000000 * 4294880896))
   \<and> ts_range ''2000-01-00T00:00:00Z'' (fst (ts_fields ''2000-01-00T00:00:00Z'')) = None
   \<and> day (fst (ts_fields ''2000-01-00T00:00:00Z'')) = 0"
  by (simp add: ts_day0) (simp add: ts_eval)

text \<open>
  Claim C8 fails on the code for the timestamp type: the serializer disposes the slot,
  which sets \<open>result\<close> to NULL, before it copies \<open>result\<close> for the metadata. With one
  \<open>store_meta\<close> timestamp needle the hook reads through NULL and inserts nothing. With
  the text type, whose disposer does nothing, the value is inserted.
\<close>

theorem store_meta_timestamp_crash:
  "map_option
     (\<lambda>ctx. h_jsonexport
        (jsonc_table ''{\"t\":\"2000-01-01T00:00:00Z\"}'' ''{ \"t\": \"2000-01-01T00:00:00Z\" }''
           [(''/t'', Some ''2000-01-01T00:00:00Z'')])
        ctx (message_of ''{\"t\":\"2000-01-01T00:00:00Z\"}'') empty_heap)
     (h_jsonexport_init (config_of [entry5 ''/t'' ''timestamp'' ''store_meta'' ''noop'' []]))
   = Some None"
  by (rule timestamp_meta_crash)

subsection \<open>Validating twice\<close>

lemma known_defaults:
  "known_pqtype ''text''" "known_action ''store''" "known_filter ''noop''"
  "\<not> snd (snd (filter_types (filtertype_enum ''noop'')))"
  by (simp_all add: known_pqtype_def known_action_def known_filter_def pqtype_enum_def
      actiontype_enum_def filtertype_enum_def)

lemma array_field_cases:
  "array_field child i dflt known = Accept v \<Longrightarrow> known dflt \<Longrightarrow>
     v = None \<or> (\<exists>s. v = Some s \<and> known s)"
  by (auto simp: array_field_def split: option.splits if_splits)

lemma group_field_cases:
  "group_field child name dflt known = Accept v \<Longrightarrow> known dflt \<Longrightarrow>
     (\<exists>s. v = Some s \<and> known s)"
  by (auto simp: group_field_def split: option.splits if_splits)

lemma validate_array_shape:
  assumes "validate_array child = Accept (jp, pq, act, flt, dat)"
  shows "(pq = None \<or> (\<exists>s. pq = Some s \<and> known_pqtype s))
       \<and> (act = None \<or> (\<exists>s. act = Some s \<and> known_action s))
       \<and> (\<exists>f. flt = Some f \<and> known_filter f
              \<and> (\<not> snd (snd (filter_types (filtertype_enum f))) \<longrightarrow> dat = Some []))"
proof -
  from assms obtain member j where
    "config_setting_get_elem child 0 = Some member" "config_setting_get_string member = Some j"
    by (auto simp: validate_array_def split: option.splits)
  note m = this
  from assms m obtain a1 where a1: "array_field child 1 ''text'' known_pqtype = Accept a1"
    by (auto simp: validate_array_def split: verdict.splits)
  from assms m a1 obtain a2 where a2: "array_field child 2 ''store'' known_action = Accept a2"
    by (auto simp: validate_array_def split: verdict.splits)
  from assms m a1 a2 obtain f where a3: "array_field child 3 ''noop'' known_filter = Accept (Some f)"
    by (auto simp: validate_array_def split: verdict.splits option.splits)
  have r: "pq = a1 \<and> act = a2 \<and> flt = Some f
      \<and> (\<not> snd (snd (filter_types (filtertype_enum f))) \<longrightarrow> dat = Some [])"
    using assms m a1 a2 a3
    by (auto simp: validate_array_def split: option.splits if_splits)
  show ?thesis
    using r array_field_cases[OF a1 known_defaults(1)] array_field_cases[OF a2 known_defaults(2)]
      array_field_cases[OF a3 known_defaults(3)]
    by auto
qed

lemma validate_group_shape:
  assumes "validate_group child = Accept (jp, pq, act, flt, dat)"
  shows "(pq = None \<or> (\<exists>s. pq = Some s \<and> known_pqtype s))
       \<and> (act = None \<or> (\<exists>s. act = Some s \<and> known_action s))
       \<and> (\<exists>f. flt = Some f \<and> known_filter f
              \<and> (\<not> snd (snd (filter_types (filtertype_enum f))) \<longrightarrow> dat = Some []))"
proof -
  from assms obtain j where j: "conf_l_is_string child ''jpointer'' = Some j"
    by (auto simp: validate_group_def split: option.splits)
  from assms j obtain a1 where a1: "group_field child ''pqtype'' ''text'' known_pqtype = Accept a1"
    by (auto simp: validate_group_def split: verdict.splits)
  from assms j a1 obtain a2 where a2: "group_field child ''action'' ''store'' known_action = Accept a2"
    by (auto simp: validate_group_def split: verdict.splits)
  from assms j a1 a2 obtain f where
    a3: "group_field child ''filter'' ''noop'' known_filter = Accept (Some f)"
    by (auto simp: validate_group_def split: verdict.splits option.splits)
  have r: "pq = a1 \<and> act = a2 \<and> flt = Some f
      \<and> (\<not> snd (snd (filter_types (filtertype_enum f))) \<longrightarrow> dat = Some [])"
    using assms j a1 a2 a3
    by (auto simp: validate_group_def split: option.splits if_splits)
  show ?thesis
    using r group_field_cases[OF a1 known_defaults(1)] group_field_cases[OF a2 known_defaults(2)]
      group_field_cases[OF a3 known_defaults(3)]
    by auto
qed

lemma validate_entry_shape:
  assumes "validate_entry child = Accept (jp, pq, act, flt, dat)"
  shows "(pq = None \<or> (\<exists>s. pq = Some s \<and> known_pqtype s))
       \<and> (act = None \<or> (\<exists>s. act = Some s \<and> known_action s))
       \<and> (\<exists>f. flt = Some f \<and> known_filter f
              \<and> (\<not> snd (snd (filter_types (filtertype_enum f))) \<longrightarrow> dat = Some []))"
proof (cases "config_setting_is_scalar child")
  case True
  then show ?thesis using assms known_defaults
    by (auto simp: validate_entry_def split: option.splits)
next
  case s: False
  show ?thesis
  proof (cases "config_setting_is_array child")
    case True
    then show ?thesis using assms s validate_array_shape[of child jp pq act flt dat]
      by (simp add: validate_entry_def)
  next
    case a: False
    show ?thesis
    proof (cases "config_setting_is_group child")
      case True
      then show ?thesis using assms s a validate_group_shape[of child jp pq act flt dat]
        by (simp add: validate_entry_def)
    next
      case False
      then show ?thesis using assms s a known_defaults
        by (auto simp: validate_entry_def)
    qed
  qed
qed

lemma validate_entry_fixpoint:
  assumes "validate_entry child = Accept (jp, pq, act, flt, dat)"
    and "jp \<noteq> None" and "dat \<noteq> None"
  shows "validate_entry (new_entry (jp, pq, act, flt, dat)) = Accept (jp, pq, act, flt, dat)"
proof -
  from validate_entry_shape[OF assms(1)] obtain f where
    pq: "pq = None \<or> (\<exists>s. pq = Some s \<and> known_pqtype s)"
    and act: "act = None \<or> (\<exists>s. act = Some s \<and> known_action s)"
    and f: "flt = Some f" "known_filter f"
      "\<not> snd (snd (filter_types (filtertype_enum f))) \<longrightarrow> dat = Some []"
    by blast
  obtain j d where j: "jp = Some j" and d: "dat = Some d" using assms(2,3) by auto
  let ?e = "new_entry (Some j, pq, act, Some f, Some d)"
  have 1: "array_field ?e (Suc 0) ''text'' known_pqtype = Accept pq"
    using pq by (auto simp: array_field_def new_entry_def config_setting_get_elem_def
        config_setting_elems_def config_setting_get_string_def)
  have 2: "array_field ?e 2 ''store'' known_action = Accept act"
    using act by (auto simp: array_field_def new_entry_def config_setting_get_elem_def
        config_setting_elems_def config_setting_get_string_def)
  have 3: "array_field ?e 3 ''noop'' known_filter = Accept (Some f)"
    using f by (auto simp: array_field_def new_entry_def config_setting_get_elem_def
        config_setting_elems_def config_setting_get_string_def)
  have 0: "config_setting_get_elem ?e 0 = Some (Conf_string (Some j))"
    by (simp add: new_entry_def config_setting_get_elem_def config_setting_elems_def)
  have 4: "config_setting_get_elem ?e 4 = Some (Conf_string (Some d))"
    by (simp add: new_entry_def config_setting_get_elem_def config_setting_elems_def)
  have "validate_array ?e = Accept (Some j, pq, act, Some f, Some d)"
    using f(3) d by (simp add: validate_array_def 0 1 2 3 4 config_setting_get_string_def)
  then show ?thesis
    by (simp add: f(1) j d validate_entry_def new_entry_def config_setting_is_scalar_def
        config_setting_is_array_def)
qed

lemma validate_loop_accepts:
  "validate_loop (length xs) (xs @ ys) = Some (True, zs) \<Longrightarrow>
     \<exists>ts. list_all2 (\<lambda>x t. validate_entry x = Accept t) xs ts \<and> zs = ys @ map new_entry ts"
proof (induction xs arbitrary: ys)
  case Nil
  then show ?case by simp
next
  case (Cons x xs)
  from Cons.prems obtain t where t: "validate_entry x = Accept t"
    by (auto split: verdict.splits)
  from Cons.prems t have "validate_loop (length xs) (xs @ (ys @ [new_entry t])) = Some (True, zs)"
    by simp
  from Cons.IH[OF this] obtain ts where
    "list_all2 (\<lambda>x t. validate_entry x = Accept t) xs ts" "zs = (ys @ [new_entry t]) @ map new_entry ts"
    by blast
  then show ?case using t by (intro exI[of _ "t # ts"]) simp
qed

lemma validate_loop_fixpoints:
  "(\<And>t. t \<in> set ts \<Longrightarrow> validate_entry (new_entry t) = Accept t) \<Longrightarrow>
     validate_loop (length ts) (map new_entry ts @ ys) = Some (True, ys @ map new_entry ts)"
proof (induction ts arbitrary: ys)
  case Nil
  then show ?case by simp
next
  case (Cons t ts)
  have "validate_loop (length ts) (map new_entry ts @ (ys @ [new_entry t]))
      = Some (True, (ys @ [new_entry t]) @ map new_entry ts)"
    by (rule Cons.IH) (simp add: Cons.prems)
  then show ?case using Cons.prems[of t] by simp
qed

lemma map_of_set_member:
  "map_of ms k = Some v \<Longrightarrow> map_of (set_member ms k w) k = Some w"
  by (induction ms k w rule: set_member.induct) (auto split: if_splits)

lemma set_member_twice: "set_member (set_member ms k w) k w = set_member ms k w"
  by (induction ms k w rule: set_member.induct) auto

lemma validate_twice:
  assumes "h_jsonexport_validate config = Some (True, config')"
    and "config_setting_get_member config' ''jpointers'' = Some (Conf_list zs)"
    and "\<forall>e\<in>set zs. config_setting_get_elem e 0 \<noteq> Some (Conf_string None)
                   \<and> config_setting_get_elem e 4 \<noteq> Some (Conf_string None)"
  shows "h_jsonexport_validate config' = Some (True, config')"
proof -
  from assms(1) obtain s where s: "config_setting_get_member config ''jpointers'' = Some s"
    by (auto simp: h_jsonexport_validate_def conf_get_mem_def split: option.splits)
  from assms(1) s obtain xs where l: "s = Conf_list xs"
    by (cases s) (auto simp: h_jsonexport_validate_def conf_get_mem_def conf_is_list_def
        config_setting_is_list_def split: if_splits)
  from s obtain ms where g: "config = Conf_group ms" and mo: "map_of ms ''jpointers'' = Some s"
    by (cases config) (auto simp: config_setting_get_member_def)
  from assms(1) s l g obtain ys where
    v: "validate_loop (length xs) xs = Some (True, ys)"
    and c: "config' = Conf_group (set_member ms ''jpointers'' (Conf_list ys))"
    by (auto simp: h_jsonexport_validate_def conf_get_mem_def conf_is_list_def
        config_setting_is_list_def config_setting_length_def config_setting_elems_def
        split: option.splits)
  have zy: "zs = ys"
    using assms(2) c map_of_set_member[OF mo] by (simp add: config_setting_get_member_def)
  from validate_loop_accepts[of xs "[]" ys] v obtain ts where
    a: "list_all2 (\<lambda>x t. validate_entry x = Accept t) xs ts" and y: "ys = map new_entry ts"
    by auto
  have fixp: "validate_entry (new_entry t) = Accept t" if "t \<in> set ts" for t
  proof -
    from that a obtain x where x: "validate_entry x = Accept t"
      by (auto simp: list_all2_conv_all_nth in_set_conv_nth)
    obtain jp pq act flt dat where t: "t = (jp, pq, act, flt, dat)" by (cases t) auto
    have "new_entry t \<in> set zs" using that zy y by simp
    then have "config_setting_get_elem (new_entry t) 0 \<noteq> Some (Conf_string None)
             \<and> config_setting_get_elem (new_entry t) 4 \<noteq> Some (Conf_string None)"
      using assms(3) by blast
    then have "jp \<noteq> None \<and> dat \<noteq> None"
      by (simp add: t new_entry_def config_setting_get_elem_def config_setting_elems_def)
    then show ?thesis using validate_entry_fixpoint[of x jp pq act flt dat] x t by simp
  qed
  have "validate_loop (length ts) (map new_entry ts @ []) = Some (True, [] @ map new_entry ts)"
    by (rule validate_loop_fixpoints) (rule fixp)
  then have v2: "validate_loop (length ys) ys = Some (True, ys)" using y by simp
  show ?thesis
    using v2 map_of_set_member[OF mo, of "Conf_list ys"]
    by (simp add: c h_jsonexport_validate_def conf_get_mem_def conf_is_list_def
        config_setting_is_list_def config_setting_length_def config_setting_elems_def
        config_setting_get_member_def set_member_twice)
qed

lemmas validate_eval = h_jsonexport_validate_def conf_get_mem_def conf_is_list_def
  conf_l_is_string_def config_setting_get_member_def config_setting_is_list_def
  config_setting_length_def config_setting_elems_def validate_entry_def validate_array_def
  validate_group_def array_field_def group_field_def known_pqtype_def known_action_def
  known_filter_def config_setting_is_scalar_def config_setting_is_array_def
  config_setting_is_group_def config_setting_get_string_def config_setting_get_elem_def
  config_setting_lookup_string_def new_entry_def config_of_def entry5_def
  pqtype_enum_def actiontype_enum_def filtertype_enum_def

lemma validate_shapes:
  "h_jsonexport_validate
     (config_of [Conf_string (Some ''/a''),
                 Conf_array [Conf_string (Some ''/b''), Conf_string (Some ''timestamp'')],
                 Conf_group [(''jpointer'', Conf_string (Some ''/k'')),
                             (''action'', Conf_string (Some ''discard_false'')),
                             (''filter'', Conf_string (Some ''match'')),
                             (''data'', Conf_string (Some ''yes''))]])
   = Some (True,
       config_of [entry5 ''/a'' ''text'' ''store'' ''noop'' [],
                  entry5 ''/b'' ''timestamp'' ''store'' ''noop'' [],
                  entry5 ''/k'' ''text'' ''discard_false'' ''match'' ''yes''])"
  by (simp add: validate_eval eval_nat_numeral)

lemma validate_shapes_again:
  "h_jsonexport_validate
     (config_of [entry5 ''/a'' ''text'' ''store'' ''noop'' [],
                 entry5 ''/b'' ''timestamp'' ''store'' ''noop'' [],
                 entry5 ''/k'' ''text'' ''discard_false'' ''match'' ''yes''])
   = Some (True,
       config_of [entry5 ''/a'' ''text'' ''store'' ''noop'' [],
                  entry5 ''/b'' ''timestamp'' ''store'' ''noop'' [],
                  entry5 ''/k'' ''text'' ''discard_false'' ''match'' ''yes''])"
  by (simp add: validate_eval eval_nat_numeral)

text \<open>
  Claim C9 fails on the code: the branch for an entry that is neither a scalar nor an
  array nor a group prints its diagnostic and does not jump to \<open>error\<close>. A list as an
  entry is accepted and normalised to an array whose \<open>jpointer\<close> is NULL; the second run
  rejects that array.
\<close>

theorem validate_accepts_list_entry:
  "h_jsonexport_validate (config_of [Conf_list [Conf_string (Some ''/a'')]])
     = Some (True,
         config_of [Conf_array [Conf_string None, Conf_string (Some ''text''),
                                Conf_string (Some ''store''), Conf_string (Some ''noop''),
                                Conf_string (Some [])]])
   \<and> map_option fst
       (h_jsonexport_validate
          (config_of [Conf_array [Conf_string None, Conf_string (Some ''text''),
                                  Conf_string (Some ''store''), Conf_string (Some ''noop''),
                                  Conf_string (Some [])]]))
     = Some False"
  by (simp add: validate_eval)

end
